theory Spec2Isabelle
  imports Main "HOL-Library.Word"
begin

unbundle bit_operations_syntax

section \<open>Python values shared by the assembler and the interpreter\<close>

text \<open>
  The two tools are \<^verbatim>\<open>assembler.py\<close> and \<^verbatim>\<open>interpreter.py\<close>. Python integers are
  unbounded and are modelled as \<open>int\<close>; \<open>&\<close>, \<open>|\<close>, \<open><<\<close> and \<open>>>\<close> are \<open>AND\<close>, \<open>OR\<close>,
  \<open>push_bit\<close> and \<open>drop_bit\<close> on \<open>int\<close>. An element of a \<^verbatim>\<open>bytes\<close> object is an integer in
  \<open>0..255\<close>, modelled as an 8-bit word and read with \<open>uint\<close>. A Python \<^verbatim>\<open>str\<close> is modelled
  as a \<open>string\<close> whose characters stand for the code points \<open>0..255\<close>.
\<close>

type_synonym byte = "8 word"

text \<open>
  \<^verbatim>\<open>int.to_bytes(n, byteorder='big')\<close>: the \<open>n\<close> bytes of the value, most significant first.
  Python raises OverflowError for a negative value and for one that needs more than \<open>n\<close>
  bytes; that is the result \<open>None\<close>.
\<close>

definition to_bytes :: "int \<Rightarrow> nat \<Rightarrow> byte list option" where
  "to_bytes v n =
     (if v < 0 \<or> 2 ^ (8 * n) \<le> v then None
      else Some (map (\<lambda>i. word_of_int (drop_bit (8 * i) v)) (rev [0..<n])))"

text \<open>\<^verbatim>\<open>int.from_bytes(bs, 'big')\<close>: the unsigned big-endian value of a byte sequence.\<close>

definition from_bytes :: "byte list \<Rightarrow> int" where
  "from_bytes bs = foldl (\<lambda>acc b. acc * 256 + uint b) 0 bs"

text \<open>
  Python's \<^verbatim>\<open>str.isspace\<close> on the code points \<open>0..255\<close>: tab, line feed, vertical tab, form
  feed, carriage return, the four separators \<open>0x1C..0x1F\<close>, space, \<open>0x85\<close> and \<open>0xA0\<close>. The
  same characters are matched by \<^verbatim>\<open>\s\<close> in a regular expression over \<^verbatim>\<open>str\<close>.
\<close>

definition is_space :: "char \<Rightarrow> bool" where
  "is_space c = (of_char c \<in> {9, 10, 11, 12, 13, 28, 29, 30, 31, 32, 133, 160 :: nat})"

text \<open>
  The decimal digits among the code points \<open>0..255\<close> are \<open>0\<close> to \<open>9\<close>: they are what
  \<^verbatim>\<open>\d\<close> matches and what \<^verbatim>\<open>int()\<close> reads.
\<close>

definition is_digit :: "char \<Rightarrow> bool" where
  "is_digit c = (48 \<le> (of_char c :: nat) \<and> (of_char c :: nat) \<le> 57)"

definition digit_val :: "char \<Rightarrow> int" where
  "digit_val c = int (of_char c) - 48"

definition digits_value :: "string \<Rightarrow> int" where
  "digits_value ds = foldl (\<lambda>acc c. acc * 10 + digit_val c) 0 ds"

text \<open>\<^verbatim>\<open>str.strip()\<close> with no argument: whitespace removed at both ends.\<close>

definition strip :: "string \<Rightarrow> string" where
  "strip s = rev (dropWhile is_space (rev (dropWhile is_space s)))"

text \<open>
  The digit part of an \<^verbatim>\<open>int()\<close> literal in base 10: digits, with single underscores
  allowed between two digits.
\<close>

fun digit_body :: "string \<Rightarrow> bool" where
  "digit_body [] = False"
| "digit_body [c] = is_digit c"
| "digit_body (c # d # cs) =
     (is_digit c \<and> (if d = CHR ''_'' then digit_body cs else digit_body (d # cs)))"

text \<open>
  \<^verbatim>\<open>int(s)\<close> for a string \<open>s\<close>: surrounding whitespace is ignored, one sign is allowed, and
  anything else raises ValueError, the result \<open>None\<close>. (The limit CPython 3.11 puts on the
  number of digits is not modelled.)
\<close>

definition py_int :: "string \<Rightarrow> int option" where
  "py_int s =
     (let t = strip s;
          (sgn, body) = (case t of
                           [] \<Rightarrow> (1, [])
                         | c # r \<Rightarrow> if c = CHR ''-'' then (- 1, r)
                                    else if c = CHR ''+'' then (1, r) else (1, t))
      in if digit_body body
         then Some (sgn * digits_value (filter (\<lambda>c. c \<noteq> CHR ''_'') body))
         else None)"

section \<open>The assembler (assembler.py)\<close>

text \<open>The dictionary \<^verbatim>\<open>OPCODES\<close>.\<close>

definition OPCODES :: "string \<Rightarrow> int option" where
  "OPCODES m =
     (if m = ''LOAD_CONST'' then Some 57
      else if m = ''READ_MEM'' then Some 28
      else if m = ''WRITE_MEM'' then Some 61
      else if m = ''LEQ'' then Some 19
      else None)"

text \<open>
  The exceptions \<^verbatim>\<open>encode_instruction\<close> can raise. All but the last are the ValueErrors
  of the source, which carry the line number in their message:
  \<^item> \<open>UnknownMnemonic\<close>: the mnemonic is not a key of \<^verbatim>\<open>OPCODES\<close>;
  \<^item> \<open>OperandCountMismatch\<close>: \<^verbatim>\<open>len(operands)\<close> is not the mnemonic's arity;
  \<^item> \<open>InvalidLiteral\<close>: \<^verbatim>\<open>int()\<close> rejected the operand token (the message is Python's own);
  \<^item> \<open>OperandOutOfRange\<close>: a range check failed; the string names the operands of the message;
  \<^item> \<open>IntTooBig\<close>: the OverflowError of \<^verbatim>\<open>to_bytes\<close>, which is not a ValueError.
\<close>

datatype asm_error =
    UnknownMnemonic nat string
  | OperandCountMismatch nat string
  | InvalidLiteral string
  | OperandOutOfRange nat string
  | IntTooBig

text \<open>The dictionary \<^verbatim>\<open>log_entry\<close>; the key \<^verbatim>\<open>'D'\<close> is present for the three-operand forms only.\<close>

record log_entry =
  log_mnemonic :: string
  log_A :: int
  log_B :: int
  log_C :: int
  log_D :: "int option"

text \<open>
  \<^verbatim>\<open>encode_instruction(mnemonic, operands, line_num)\<close>. The operands are the tokens of the
  line; \<^verbatim>\<open>B, C = map(int, operands)\<close> converts them in order, after the count was checked.
\<close>

definition encode_instruction ::
  "string \<Rightarrow> string list \<Rightarrow> nat \<Rightarrow> asm_error + (byte list \<times> log_entry)" where
  "encode_instruction mnemonic operands line_num =
     (case OPCODES mnemonic of
        None \<Rightarrow> Inl (UnknownMnemonic line_num mnemonic)
      | Some A \<Rightarrow>
         (if mnemonic = ''LOAD_CONST'' then
            (case operands of
               [tb, tc] \<Rightarrow>
                 (case py_int tb of None \<Rightarrow> Inl (InvalidLiteral tb) | Some B \<Rightarrow>
                 (case py_int tc of None \<Rightarrow> Inl (InvalidLiteral tc) | Some C \<Rightarrow>
                    (if B < 0 \<or> B > push_bit 31 1 - 1 then Inl (OperandOutOfRange line_num ''B'')
                     else if C < 0 \<or> C > 31 then Inl (OperandOutOfRange line_num ''C'')
                     else
                       (let instruction =
                              push_bit 42 (A AND 0x3F) OR push_bit 11 (B AND 0x7FFFFFFF)
                                OR push_bit 6 (C AND 0x1F)
                        in (case to_bytes instruction 6 of
                              None \<Rightarrow> Inl IntTooBig
                            | Some encoded \<Rightarrow>
                                Inr (encoded, \<lparr>log_mnemonic = mnemonic, log_A = A, log_B = B,
                                               log_C = C, log_D = None\<rparr>))))))
             | _ \<Rightarrow> Inl (OperandCountMismatch line_num mnemonic))
          else if mnemonic = ''READ_MEM'' then
            (case operands of
               [tb, tc] \<Rightarrow>
                 (case py_int tb of None \<Rightarrow> Inl (InvalidLiteral tb) | Some B \<Rightarrow>
                 (case py_int tc of None \<Rightarrow> Inl (InvalidLiteral tc) | Some C \<Rightarrow>
                    (if B < 0 \<or> B > 31 then Inl (OperandOutOfRange line_num ''B'')
                     else if C < 0 \<or> C > 31 then Inl (OperandOutOfRange line_num ''C'')
                     else
                       (let instruction =
                              push_bit 10 (A AND 0x3F) OR push_bit 5 (B AND 0x1F) OR (C AND 0x1F)
                        in (case to_bytes instruction 2 of
                              None \<Rightarrow> Inl IntTooBig
                            | Some encoded \<Rightarrow>
                                Inr (encoded, \<lparr>log_mnemonic = mnemonic, log_A = A, log_B = B,
                                               log_C = C, log_D = None\<rparr>))))))
             | _ \<Rightarrow> Inl (OperandCountMismatch line_num mnemonic))
          else if mnemonic = ''WRITE_MEM'' then
            (case operands of
               [tb, tc, td] \<Rightarrow>
                 (case py_int tb of None \<Rightarrow> Inl (InvalidLiteral tb) | Some B \<Rightarrow>
                 (case py_int tc of None \<Rightarrow> Inl (InvalidLiteral tc) | Some C \<Rightarrow>
                 (case py_int td of None \<Rightarrow> Inl (InvalidLiteral td) | Some D \<Rightarrow>
                    (if list_ex (\<lambda>val. val < 0 \<or> val > 31) [B, C, D]
                     then Inl (OperandOutOfRange line_num ''B, C, D'')
                     else
                       (let instruction =
                              push_bit 18 (A AND 0x3F) OR push_bit 13 (B AND 0x1F)
                                OR push_bit 8 (C AND 0x1F) OR push_bit 3 (D AND 0x1F)
                        in (case to_bytes instruction 3 of
                              None \<Rightarrow> Inl IntTooBig
                            | Some encoded \<Rightarrow>
                                Inr (encoded, \<lparr>log_mnemonic = mnemonic, log_A = A, log_B = B,
                                               log_C = C, log_D = Some D\<rparr>)))))))
             | _ \<Rightarrow> Inl (OperandCountMismatch line_num mnemonic))
          else if mnemonic = ''LEQ'' then
            (case operands of
               [tb, tc, td] \<Rightarrow>
                 (case py_int tb of None \<Rightarrow> Inl (InvalidLiteral tb) | Some B \<Rightarrow>
                 (case py_int tc of None \<Rightarrow> Inl (InvalidLiteral tc) | Some C \<Rightarrow>
                 (case py_int td of None \<Rightarrow> Inl (InvalidLiteral td) | Some D \<Rightarrow>
                    (if list_ex (\<lambda>val. val < 0 \<or> val > 31) [B, C, D]
                     then Inl (OperandOutOfRange line_num ''B, C, D'')
                     else
                       (let instruction =
                              push_bit 18 (A AND 0x3F) OR push_bit 13 (B AND 0x1F)
                                OR push_bit 8 (C AND 0x1F) OR push_bit 3 (D AND 0x1F)
                        in (case to_bytes instruction 3 of
                              None \<Rightarrow> Inl IntTooBig
                            | Some encoded \<Rightarrow>
                                Inr (encoded, \<lparr>log_mnemonic = mnemonic, log_A = A, log_B = B,
                                               log_C = C, log_D = Some D\<rparr>)))))))
             | _ \<Rightarrow> Inl (OperandCountMismatch line_num mnemonic))
          else Inl (UnknownMnemonic line_num mnemonic)))"

text \<open>
  \<^verbatim>\<open>re.split(r'\s+', line)\<close>: the pieces of the line between maximal runs of whitespace.
  A run at either end leaves an empty piece there, and the result is never empty.
\<close>

fun re_split_ws :: "string \<Rightarrow> string list" where
  "re_split_ws [] = [[]]"
| "re_split_ws (c # cs) =
     (if is_space c then
        (case cs of
           [] \<Rightarrow> [[], []]
         | d # ds \<Rightarrow> if is_space d then re_split_ws cs else [] # re_split_ws cs)
      else
        (case re_split_ws cs of
           [] \<Rightarrow> [[c]]
         | t # ts \<Rightarrow> (c # t) # ts))"

text \<open>
  \<^verbatim>\<open>str.upper()\<close>: the letters \<open>a\<close> to \<open>z\<close> become \<open>A\<close> to \<open>Z\<close>. Other characters are left as
  they are; among the code points \<open>0..255\<close> none of them becomes an ASCII character, so the
  lookup of the mnemonic in \<^verbatim>\<open>OPCODES\<close> does not depend on them.
\<close>

definition upper :: "string \<Rightarrow> string" where
  "upper s =
     map (\<lambda>c. if 97 \<le> (of_char c :: nat) \<and> (of_char c :: nat) \<le> 122
               then char_of (of_char c - 32 :: nat) else c) s"

text \<open>
  What a run of the assembler leaves behind: the binary file and the log file it wrote
  (\<open>None\<close>: not written by this run), what it printed on the error stream and its exit
  status. The log dictionary has one key \<^verbatim>\<open>instruction_<line_num>\<close> for each encoded line and
  keeps the order of insertion; it is the list of the line numbers with their entries.
  \<open>Reported n e\<close> is the message the \<^verbatim>\<open>except ValueError\<close> handler prints for line \<open>n\<close>;
  \<open>Uncaught\<close> is the traceback of an exception that the handler does not catch.
\<close>

datatype asm_report = Reported nat asm_error | Uncaught string

record asm_result =
  output_file :: "byte list option"
  log_file :: "(nat \<times> log_entry) list option"
  asm_stderr :: "asm_report option"
  asm_exit :: int

text \<open>
  The body of the loop of \<^verbatim>\<open>assemble\<close> up to the call of the encoder: the comment is cut
  off, the line is stripped, and a line that is then empty is skipped (\<open>None\<close>). Otherwise
  the tokens are \<^verbatim>\<open>re.split(r'\s+', line)\<close>, the mnemonic is \<^verbatim>\<open>tokens[0].upper()\<close> and the
  operands are \<^verbatim>\<open>tokens[1:]\<close>; the token list is never empty.
\<close>

definition encode_line ::
  "nat \<Rightarrow> string \<Rightarrow> (asm_error + (byte list \<times> log_entry)) option" where
  "encode_line line_num l =
     (let line = strip (takeWhile (\<lambda>c. c \<noteq> CHR ''#'') l) in
      if line = [] then None
      else
        (let tokens = re_split_ws line;
             mnemonic = upper (hd tokens);
             operands = tl tokens
         in Some (encode_instruction mnemonic operands line_num)))"

text \<open>
  The loop of \<^verbatim>\<open>assemble\<close> over \<^verbatim>\<open>enumerate(lines, 1)\<close>, and the two writes that follow it.
  \<^verbatim>\<open>sys.exit(1)\<close> in the handler ends the run before either file is opened.
\<close>

fun assemble_lines ::
  "nat \<Rightarrow> string list \<Rightarrow> byte list \<Rightarrow> (nat \<times> log_entry) list \<Rightarrow> asm_result" where
  "assemble_lines line_num [] binary_output log_output =
     \<lparr>output_file = Some binary_output, log_file = Some log_output,
      asm_stderr = None, asm_exit = 0\<rparr>"
| "assemble_lines line_num (l # ls) binary_output log_output =
     (case encode_line line_num l of
        None \<Rightarrow> assemble_lines (line_num + 1) ls binary_output log_output
      | Some (Inr (encoded, entry)) \<Rightarrow>
          if encoded \<noteq> []
          then assemble_lines (line_num + 1) ls (binary_output @ encoded)
                 (log_output @ [(line_num, entry)])
          else assemble_lines (line_num + 1) ls binary_output log_output
      | Some (Inl e) \<Rightarrow>
          if e = IntTooBig
          then \<lparr>output_file = None, log_file = None,
                asm_stderr = Some (Uncaught ''OverflowError''), asm_exit = 1\<rparr>
          else \<lparr>output_file = None, log_file = None,
                asm_stderr = Some (Reported line_num e), asm_exit = 1\<rparr>)"

definition assemble :: "string list \<Rightarrow> asm_result" where
  "assemble lines = assemble_lines 1 lines [] []"

section \<open>The interpreter (interpreter.py)\<close>

text \<open>
  The exceptions of \<^verbatim>\<open>VirtualMachine.execute\<close>. The first three are the ValueErrors of the
  source: too few bytes for the named instruction, an address outside the memory (with the
  address), an unknown opcode (with the opcode and the pc). \<open>IndexError\<close> is Python's own,
  for a list index out of range.
\<close>

datatype vm_error =
    TruncatedInstruction string
  | MemoryOutOfBounds int
  | UnknownOpcode int nat
  | IndexError

text \<open>
  The fields of \<^verbatim>\<open>VirtualMachine\<close>. The pc starts at 0 and is only ever incremented, so it
  is a natural number.
\<close>

record vm =
  registers :: "int list"
  memory :: "int list"
  program :: "byte list"
  pc :: nat

text \<open>\<^verbatim>\<open>VirtualMachine(memory_size)\<close> followed by \<^verbatim>\<open>load_program(binary_data)\<close>.\<close>

definition init_vm :: "nat \<Rightarrow> byte list \<Rightarrow> vm" where
  "init_vm memory_size binary_data =
     \<lparr>registers = replicate 32 0, memory = replicate memory_size 0,
      program = binary_data, pc = 0\<rparr>"

text \<open>
  The position that Python's list indexing gives to the index \<open>i\<close> of a list of length
  \<open>n\<close>: an index from \<open>-n\<close> to \<open>-1\<close> counts from the end, and an index outside \<open>-n..n-1\<close>
  raises IndexError, the result \<open>None\<close>. Then \<^verbatim>\<open>xs[i]\<close> and \<^verbatim>\<open>xs[i] = v\<close>.
\<close>

definition py_index :: "nat \<Rightarrow> int \<Rightarrow> nat option" where
  "py_index n i =
     (if 0 \<le> i \<and> i < int n then Some (nat i)
      else if - int n \<le> i \<and> i < 0 then Some (nat (int n + i))
      else None)"

definition list_get :: "'a list \<Rightarrow> int \<Rightarrow> 'a option" where
  "list_get xs i = map_option (\<lambda>j. xs ! j) (py_index (length xs) i)"

definition list_set :: "'a list \<Rightarrow> int \<Rightarrow> 'a \<Rightarrow> 'a list option" where
  "list_set xs i v = map_option (\<lambda>j. xs[j := v]) (py_index (length xs) i)"

text \<open>\<^verbatim>\<open>xs[i:j]\<close> for indices \<open>0 \<le> i\<close> and \<open>0 \<le> j\<close>: the slice is cut at the end of the list.\<close>

definition slice :: "'a list \<Rightarrow> nat \<Rightarrow> nat \<Rightarrow> 'a list" where
  "slice xs i j = take (j - i) (drop i xs)"

text \<open>
  The field extraction of \<^verbatim>\<open>execute\<close> from \<^verbatim>\<open>instr_val\<close>, one function for each layout:
  \<open>(A_extracted, B, C)\<close> for LOAD_CONST and READ_MEM, \<open>(A_extracted, B, C, D)\<close> for WRITE_MEM
  and LEQ, which share their shifts and masks.
\<close>

definition decode_LOAD_CONST :: "int \<Rightarrow> int \<times> int \<times> int" where
  "decode_LOAD_CONST instr_val =
     (drop_bit 42 instr_val AND 0x3F, drop_bit 11 instr_val AND 0x7FFFFFFF,
      drop_bit 6 instr_val AND 0x1F)"

definition decode_READ_MEM :: "int \<Rightarrow> int \<times> int \<times> int" where
  "decode_READ_MEM instr_val =
     (drop_bit 10 instr_val AND 0x3F, drop_bit 5 instr_val AND 0x1F, instr_val AND 0x1F)"

definition decode_BCD :: "int \<Rightarrow> int \<times> int \<times> int \<times> int" where
  "decode_BCD instr_val =
     (drop_bit 18 instr_val AND 0x3F, drop_bit 13 instr_val AND 0x1F,
      drop_bit 8 instr_val AND 0x1F, drop_bit 3 instr_val AND 0x1F)"

text \<open>
  One iteration of the \<^verbatim>\<open>while\<close> loop of \<^verbatim>\<open>execute\<close>. An exception leaves the loop with
  the machine as it is at the \<^verbatim>\<open>raise\<close>: the result \<open>Inl\<close> carries the exception and that
  state. The \<^verbatim>\<open>print\<close> calls write to the standard output only. The first \<^verbatim>\<open>if\<close> of the
  body has \<^verbatim>\<open>pass\<close> as its branch; like the opcode peek it reads \<^verbatim>\<open>program[pc]\<close>.
\<close>

definition step :: "vm \<Rightarrow> (vm_error \<times> vm) + vm" where
  "step vm =
     (if length (program vm) \<le> pc vm then Inl (IndexError, vm)
      else
        (let current_byte = uint (program vm ! pc vm);
             A = drop_bit 2 (current_byte AND 0xFC)
         in
          if A = 57 then
            (if pc vm + 6 > length (program vm)
             then Inl (TruncatedInstruction ''LOAD_CONST'', vm)
             else
               (let instr_bytes = slice (program vm) (pc vm) (pc vm + 6);
                    instr_val = from_bytes instr_bytes;
                    (A_extracted, B, C) = decode_LOAD_CONST instr_val
                in (case list_set (registers vm) C B of
                      None \<Rightarrow> Inl (IndexError, vm)
                    | Some regs \<Rightarrow> Inr (vm\<lparr>registers := regs, pc := pc vm + 6\<rparr>))))
          else if A = 28 then
            (if pc vm + 2 > length (program vm)
             then Inl (TruncatedInstruction ''READ_MEM'', vm)
             else
               (let instr_bytes = slice (program vm) (pc vm) (pc vm + 2);
                    instr_val = from_bytes instr_bytes;
                    (A_extracted, B, C) = decode_READ_MEM instr_val
                in (case list_get (registers vm) C of
                      None \<Rightarrow> Inl (IndexError, vm)
                    | Some addr \<Rightarrow>
                        if addr < 0 \<or> addr \<ge> int (length (memory vm))
                        then Inl (MemoryOutOfBounds addr, vm)
                        else
                          (case list_get (memory vm) addr of
                             None \<Rightarrow> Inl (IndexError, vm)
                           | Some v \<Rightarrow>
                              (case list_set (registers vm) B v of
                                 None \<Rightarrow> Inl (IndexError, vm)
                               | Some regs \<Rightarrow>
                                   Inr (vm\<lparr>registers := regs, pc := pc vm + 2\<rparr>))))))
          else if A = 61 then
            (if pc vm + 3 > length (program vm)
             then Inl (TruncatedInstruction ''WRITE_MEM'', vm)
             else
               (let instr_bytes = slice (program vm) (pc vm) (pc vm + 3);
                    instr_val = from_bytes instr_bytes;
                    (A_extracted, B, C, D) = decode_BCD instr_val
                in (case list_get (registers vm) C of
                      None \<Rightarrow> Inl (IndexError, vm)
                    | Some base_addr \<Rightarrow>
                       (let addr = base_addr + D in
                        (case list_get (registers vm) B of
                           None \<Rightarrow> Inl (IndexError, vm)
                         | Some val \<Rightarrow>
                             if addr < 0 \<or> addr \<ge> int (length (memory vm))
                             then Inl (MemoryOutOfBounds addr, vm)
                             else
                               (case list_set (memory vm) addr val of
                                  None \<Rightarrow> Inl (IndexError, vm)
                                | Some mem \<Rightarrow>
                                    Inr (vm\<lparr>memory := mem, pc := pc vm + 3\<rparr>)))))))
          else if A = 19 then
            (if pc vm + 3 > length (program vm)
             then Inl (TruncatedInstruction ''LEQ'', vm)
             else
               (let instr_bytes = slice (program vm) (pc vm) (pc vm + 3);
                    instr_val = from_bytes instr_bytes;
                    (A_extracted, B, C, D) = decode_BCD instr_val
                in (case list_get (registers vm) B of
                      None \<Rightarrow> Inl (IndexError, vm)
                    | Some val1 \<Rightarrow>
                       (case list_get (registers vm) D of
                          None \<Rightarrow> Inl (IndexError, vm)
                        | Some val2 \<Rightarrow>
                           (case list_set (registers vm) C (if val1 \<le> val2 then 1 else 0) of
                              None \<Rightarrow> Inl (IndexError, vm)
                            | Some regs \<Rightarrow>
                                Inr (vm\<lparr>registers := regs, pc := pc vm + 3\<rparr>))))))
          else Inl (UnknownOpcode A (pc vm), vm)))"

text \<open>
  \<^verbatim>\<open>execute\<close>: the loop \<^verbatim>\<open>while self.pc < len(self.program)\<close>. \<open>Inr\<close> is the state in which
  the loop ends, \<open>Inl\<close> the exception that leaves it.
\<close>

function execute :: "vm \<Rightarrow> (vm_error \<times> vm) + vm" where
  "execute vm =
     (if pc vm < length (program vm)
      then (case step vm of Inl e \<Rightarrow> Inl e | Inr vm' \<Rightarrow> execute vm')
      else Inr vm)"
  by pat_completeness auto
termination
proof (relation "measure (\<lambda>vm. length (program vm) - pc vm)")
  show "wf (measure (\<lambda>vm. length (program vm) - pc vm))"
    by simp
next
  fix vm vm' :: vm
  assume "pc vm < length (program vm)" and "step vm = Inr vm'"
  then have "program vm' = program vm \<and> pc vm < pc vm'"
    unfolding step_def Let_def list_set_def
    by (auto split: if_splits option.splits prod.splits)
  with \<open>pc vm < length (program vm)\<close>
  show "(vm', vm) \<in> measure (\<lambda>vm. length (program vm) - pc vm)"
    by (simp add: diff_less_mono2)
qed

declare execute.simps [simp del]

text \<open>
  The same loop with a bound on the number of iterations: \<open>None\<close> when the bound is used up
  before the loop has ended.
\<close>

fun execute_n :: "nat \<Rightarrow> vm \<Rightarrow> ((vm_error \<times> vm) + vm) option" where
  "execute_n 0 vm = None"
| "execute_n (Suc n) vm =
     (if pc vm < length (program vm)
      then (case step vm of Inl e \<Rightarrow> Some (Inl e) | Inr vm' \<Rightarrow> execute_n n vm')
      else Some (Inr vm))"

text \<open>
  The opcode that an iteration reads from the byte at the pc, and the constants of each
  branch of \<^verbatim>\<open>execute\<close>: the number of bytes its length check asks for, which is also the
  increment of the pc at its end, and the instruction name in its message.
\<close>

definition peek_opcode :: "vm \<Rightarrow> int" where
  "peek_opcode vm = drop_bit 2 (uint (program vm ! pc vm) AND 0xFC)"

definition instr_width :: "int \<Rightarrow> nat" where
  "instr_width A = (if A = 57 then 6 else if A = 28 then 2 else if A = 61 then 3
                     else if A = 19 then 3 else 0)"

definition instr_name :: "int \<Rightarrow> string" where
  "instr_name A = (if A = 57 then ''LOAD_CONST'' else if A = 28 then ''READ_MEM''
                    else if A = 61 then ''WRITE_MEM'' else if A = 19 then ''LEQ'' else [])"

text \<open>
  The states the loop passes through when it starts from a fresh machine: the state after
  \<^verbatim>\<open>VirtualMachine(memory_size)\<close> and \<^verbatim>\<open>load_program\<close>, and the state after each iteration
  that ends without an exception.
\<close>

inductive reachable :: "nat \<Rightarrow> byte list \<Rightarrow> vm \<Rightarrow> bool"
  for memory_size :: nat and binary_data :: "byte list" where
  reachable_init: "reachable memory_size binary_data (init_vm memory_size binary_data)"
| reachable_step:
    "reachable memory_size binary_data vm \<Longrightarrow> pc vm < length (program vm) \<Longrightarrow>
     step vm = Inr vm' \<Longrightarrow> reachable memory_size binary_data vm'"

text \<open>Every register and every memory cell holds a value of 31 bits.\<close>

definition values_in_range :: "vm \<Rightarrow> bool" where
  "values_in_range vm =
     (list_all (\<lambda>v. 0 \<le> v \<and> v \<le> 2 ^ 31 - 1) (registers vm) \<and>
      list_all (\<lambda>v. 0 \<le> v \<and> v \<le> 2 ^ 31 - 1) (memory vm))"

text \<open>\<^verbatim>\<open>get_memory_slice(start, end)\<close>, that is \<^verbatim>\<open>self.memory[start:end + 1]\<close>.\<close>

definition get_memory_slice :: "vm \<Rightarrow> int \<Rightarrow> int \<Rightarrow> int list" where
  "get_memory_slice vm start end' = slice (memory vm) (nat start) (nat (end' + 1))"

text \<open>
  \<^verbatim>\<open>re.match(r'^(\d+):(\d+)$', s)\<close>: the two groups, or \<open>None\<close> when there is no match. The
  digits and the colon are disjoint, so the match is the greedy one. Without the MULTILINE
  flag \<^verbatim>\<open>$\<close> matches at the end of the string and also just before a line feed that is the
  last character of the string.
\<close>

definition match_range :: "string \<Rightarrow> (string \<times> string) option" where
  "match_range s =
     (let g1 = takeWhile is_digit s; r1 = dropWhile is_digit s in
      if g1 = [] then None
      else
        (case r1 of
           [] \<Rightarrow> None
         | c # r2 \<Rightarrow>
             if c \<noteq> CHR '':'' then None
             else
               (let g2 = takeWhile is_digit r2; r3 = dropWhile is_digit r2 in
                if g2 = [] then None
                else if r3 = [] \<or> r3 = [CHR 0x0A] then Some (g1, g2)
                else None)))"

text \<open>
  The ValueErrors of \<^verbatim>\<open>parse_memory_range\<close>: the string does not match the pattern, the
  numbers are not a range of the memory, and the ValueError of \<^verbatim>\<open>int()\<close> itself.
\<close>

datatype range_error = BadRangeFormat | BadRange | BadRangeLiteral

definition parse_memory_range :: "string \<Rightarrow> int \<Rightarrow> range_error + (int \<times> int)" where
  "parse_memory_range memory_range_str memory_size =
     (case match_range memory_range_str of
        None \<Rightarrow> Inl BadRangeFormat
      | Some (g1, g2) \<Rightarrow>
         (case py_int g1 of None \<Rightarrow> Inl BadRangeLiteral | Some start \<Rightarrow>
         (case py_int g2 of None \<Rightarrow> Inl BadRangeLiteral | Some end' \<Rightarrow>
            if start < 0 \<or> end' \<ge> memory_size \<or> start > end' then Inl BadRange
            else Inr (start, end'))))"

text \<open>
  What a run of the interpreter leaves behind: the result document it wrote (the list under
  the key \<^verbatim>\<open>memory\<close>; \<open>None\<close>: not written by this run), what it printed on the error stream
  and its exit status.
\<close>

datatype interp_report = FileNotFound | ExecuteFailed vm_error | RangeRejected range_error

record interp_result =
  result_file :: "int list option"
  interp_stderr :: "interp_report option"
  interp_exit :: int

text \<open>
  \<^verbatim>\<open>main\<close> of the interpreter. The first argument is the content of the input file, \<open>None\<close>
  when the file does not exist; the second is the \<^verbatim>\<open>--range\<close> argument. Each handler prints
  and calls \<^verbatim>\<open>sys.exit(1)\<close>.
\<close>

definition interpreter_main :: "byte list option \<Rightarrow> string \<Rightarrow> interp_result" where
  "interpreter_main input_file range_arg =
     (case input_file of
        None \<Rightarrow> \<lparr>result_file = None, interp_stderr = Some FileNotFound, interp_exit = 1\<rparr>
      | Some binary_data \<Rightarrow>
         (case execute (init_vm 256 binary_data) of
            Inl (e, vm') \<Rightarrow>
              \<lparr>result_file = None, interp_stderr = Some (ExecuteFailed e), interp_exit = 1\<rparr>
          | Inr vm' \<Rightarrow>
             (case parse_memory_range range_arg (int (length (memory vm'))) of
                Inl e \<Rightarrow>
                  \<lparr>result_file = None, interp_stderr = Some (RangeRejected e), interp_exit = 1\<rparr>
              | Inr (start, end') \<Rightarrow>
                  \<lparr>result_file = Some (get_memory_slice vm' start end'),
                   interp_stderr = None, interp_exit = 0\<rparr>)))"

section \<open>The two tools in sequence\<close>

text \<open>
  The data flow of the two tools: the text is assembled, and the binary file, when it was
  written, is loaded into a fresh machine with the 256 memory cells that the interpreter's
  \<^verbatim>\<open>main\<close> gives it and executed. The result is the final machine when \<^verbatim>\<open>execute\<close> ends
  without an exception. \<open>register_after\<close> and \<open>memory_after\<close> read one register and one
  memory cell of that machine.
\<close>

definition run_program :: "string list \<Rightarrow> vm option" where
  "run_program lines =
     (case output_file (assemble lines) of
        None \<Rightarrow> None
      | Some binary_data \<Rightarrow>
         (case execute (init_vm 256 binary_data) of
            Inl e \<Rightarrow> None
          | Inr vm' \<Rightarrow> Some vm'))"

definition register_after :: "string list \<Rightarrow> int \<Rightarrow> int option" where
  "register_after lines i =
     (case run_program lines of None \<Rightarrow> None | Some vm' \<Rightarrow> list_get (registers vm') i)"

definition memory_after :: "string list \<Rightarrow> int \<Rightarrow> int option" where
  "memory_after lines i =
     (case run_program lines of None \<Rightarrow> None | Some vm' \<Rightarrow> list_get (memory vm') i)"


section \<open>Bytes and bit fields\<close>

text \<open>
  \<^verbatim>\<open>from_bytes\<close> undoes \<^verbatim>\<open>to_bytes\<close>: the big-endian value of the \<open>n\<close> bytes of \<open>v\<close> is \<open>v\<close>
  cut to \<open>8 * n\<close> bits, and \<^verbatim>\<open>to_bytes\<close> succeeds exactly on the values of that many bits.
\<close>

lemma from_bytes_foldl_acc:
  "foldl (\<lambda>acc b. acc * 256 + uint (b::byte)) a bs =
     a * 256 ^ length bs + foldl (\<lambda>acc b. acc * 256 + uint b) 0 bs"
proof (induction bs arbitrary: a)
  case Nil show ?case by simp
next
  case (Cons b bs)
  show ?case
    using Cons.IH[of "a * 256 + uint b"] Cons.IH[of "uint b"] by (simp add: algebra_simps)
qed

lemma from_bytes_Cons: "from_bytes (b # bs) = uint b * 256 ^ length bs + from_bytes bs"
  unfolding from_bytes_def using from_bytes_foldl_acc[of "uint b" bs] by simp

lemma from_bytes_Nil: "from_bytes [] = 0" by (simp add: from_bytes_def)

lemma from_bytes_big_endian:
  "from_bytes (map (\<lambda>i. word_of_int (drop_bit (8 * i) v)) (rev [0..<n])) = take_bit (8 * n) v"
proof (induction n)
  case 0 show ?case by (simp add: from_bytes_Nil)
next
  case (Suc n)
  have *: "v mod 2 ^ (8 + 8 * n) = v div 2 ^ (8 * n) mod 256 * 2 ^ (8 * n) + v mod 2 ^ (8 * n)"
    using zmod_zmult2_eq[where a=v and b="2 ^ (8 * n)" and c="2 ^ 8"]
    by (simp add: power_add mult.commute)
  have p: "(256::int) ^ n = 2 ^ (8 * n)"
    by (simp add: power_mult)
  show ?case
    using Suc.IH
    by (simp add: from_bytes_Cons uint_word_of_int_eq * p take_bit_eq_mod drop_bit_eq_div)
qed

lemma to_bytes_ok:
  assumes "take_bit (8 * n) w = w"
  shows "\<exists>bs. to_bytes w n = Some bs \<and> length bs = n \<and> from_bytes bs = w"
proof -
  from assms have "0 \<le> w \<and> w < 2 ^ (8 * n)"
    by (simp add: take_bit_int_eq_self_iff)
  then show ?thesis
    using assms by (simp add: to_bytes_def from_bytes_big_endian)
qed

text \<open>
  The three layouts. The fields of an instruction word do not overlap and the word fits
  the bytes of its form, so the shifts and masks of the interpreter read back every field
  as it was masked by the assembler.
\<close>

lemma mask6_numeral: "(0x3F::int) = mask 6"
  by (simp add: mask_eq_exp_minus_1)

lemma mask5_numeral: "(0x1F::int) = mask 5"
  by (simp add: mask_eq_exp_minus_1)

lemma mask31_numeral: "(0x7FFFFFFF::int) = mask 31"
  by (simp add: mask_eq_exp_minus_1)

lemma layout_LOAD_CONST:
  fixes a b c :: int
  defines "w \<equiv> push_bit 42 (a AND 0x3F) OR push_bit 11 (b AND 0x7FFFFFFF) OR push_bit 6 (c AND 0x1F)"
  shows "take_bit (8 * 6) w = w"
    and "decode_LOAD_CONST w = (take_bit 6 a, take_bit 31 b, take_bit 5 c)"
proof -
  show "take_bit (8 * 6) w = w"
    unfolding w_def mask6_numeral mask5_numeral mask31_numeral
    by (simp only: flip: take_bit_eq_mask) (rule bit_eqI, auto simp add: bit_simps)
  show "decode_LOAD_CONST w = (take_bit 6 a, take_bit 31 b, take_bit 5 c)"
    unfolding w_def decode_LOAD_CONST_def mask6_numeral mask5_numeral mask31_numeral prod.inject
    by (simp only: flip: take_bit_eq_mask) (intro conjI; rule bit_eqI; auto simp add: bit_simps)
qed

lemma layout_READ_MEM:
  fixes a b c :: int
  defines "w \<equiv> push_bit 10 (a AND 0x3F) OR push_bit 5 (b AND 0x1F) OR (c AND 0x1F)"
  shows "take_bit (8 * 2) w = w"
    and "decode_READ_MEM w = (take_bit 6 a, take_bit 5 b, take_bit 5 c)"
proof -
  show "take_bit (8 * 2) w = w"
    unfolding w_def mask6_numeral mask5_numeral mask31_numeral
    by (simp only: flip: take_bit_eq_mask) (rule bit_eqI, auto simp add: bit_simps)
  show "decode_READ_MEM w = (take_bit 6 a, take_bit 5 b, take_bit 5 c)"
    unfolding w_def decode_READ_MEM_def mask6_numeral mask5_numeral mask31_numeral prod.inject
    by (simp only: flip: take_bit_eq_mask) (intro conjI; rule bit_eqI; auto simp add: bit_simps)
qed

lemma layout_BCD:
  fixes a b c d :: int
  defines "w \<equiv> push_bit 18 (a AND 0x3F) OR push_bit 13 (b AND 0x1F) OR push_bit 8 (c AND 0x1F) OR push_bit 3 (d AND 0x1F)"
  shows "take_bit (8 * 3) w = w"
    and "decode_BCD w = (take_bit 6 a, take_bit 5 b, take_bit 5 c, take_bit 5 d)"
proof -
  show "take_bit (8 * 3) w = w"
    unfolding w_def mask6_numeral mask5_numeral mask31_numeral
    by (simp only: flip: take_bit_eq_mask) (rule bit_eqI, auto simp add: bit_simps)
  show "decode_BCD w = (take_bit 6 a, take_bit 5 b, take_bit 5 c, take_bit 5 d)"
    unfolding w_def decode_BCD_def mask6_numeral mask5_numeral mask31_numeral prod.inject
    by (simp only: flip: take_bit_eq_mask) (intro conjI; rule bit_eqI; auto simp add: bit_simps)
qed

lemma take_bit_5_id: "0 \<le> x \<Longrightarrow> x \<le> 31 \<Longrightarrow> take_bit 5 (x::int) = x"
  by (simp add: take_bit_int_eq_self)
lemma take_bit_31_id: "0 \<le> x \<Longrightarrow> x \<le> 2 ^ 31 - 1 \<Longrightarrow> take_bit 31 (x::int) = x"
  by (simp add: take_bit_int_eq_self)

section \<open>The codec\<close>

text \<open>
  The result of the encoder once the operand tokens are read as integers: with every value
  in its range, the bytes and the log entry; with a value out of range, the ValueError of
  the range check.
\<close>

lemma encode_LOAD_CONST_ok:
  assumes "py_int tb = Some B" "py_int tc = Some C"
    and "0 \<le> B" "B \<le> 2 ^ 31 - 1" "0 \<le> C" "C \<le> 31"
  shows "\<exists>bs. encode_instruction ''LOAD_CONST'' [tb, tc] n =
            Inr (bs, \<lparr>log_mnemonic = ''LOAD_CONST'', log_A = 57, log_B = B, log_C = C,
                      log_D = None\<rparr>) \<and>
          length bs = 6 \<and> decode_LOAD_CONST (from_bytes bs) = (57, B, C)"
proof -
  let ?w = "push_bit 42 (57 AND 0x3F) OR push_bit 11 (B AND 0x7FFFFFFF) OR push_bit 6 (C AND 0x1F)"
  obtain bs where bs: "to_bytes ?w 6 = Some bs" "length bs = 6" "from_bytes bs = ?w"
    using to_bytes_ok [OF layout_LOAD_CONST(1) [of 57 B C]] by auto
  have "(take_bit 6 (57::int), take_bit 31 B, take_bit 5 C) = (57, B, C)"
    using assms by (simp add: take_bit_5_id take_bit_31_id)
  then have "decode_LOAD_CONST ?w = (57, B, C)"
    by (simp only: layout_LOAD_CONST(2))
  with bs assms show ?thesis
    by (simp add: encode_instruction_def OPCODES_def Let_def push_bit_eq_mult)
qed

lemma encode_LOAD_CONST_bad:
  assumes "py_int tb = Some B" "py_int tc = Some C"
    and "\<not> (0 \<le> B \<and> B \<le> 2 ^ 31 - 1 \<and> 0 \<le> C \<and> C \<le> 31)"
  shows "\<exists>s. encode_instruction ''LOAD_CONST'' [tb, tc] n = Inl (OperandOutOfRange n s)"
  using assms
  by (auto simp add: encode_instruction_def OPCODES_def Let_def push_bit_eq_mult)

lemma encode_READ_MEM_ok:
  assumes "py_int tb = Some B" "py_int tc = Some C"
    and "0 \<le> B" "B \<le> 31" "0 \<le> C" "C \<le> 31"
  shows "\<exists>bs. encode_instruction ''READ_MEM'' [tb, tc] n =
            Inr (bs, \<lparr>log_mnemonic = ''READ_MEM'', log_A = 28, log_B = B, log_C = C,
                      log_D = None\<rparr>) \<and>
          length bs = 2 \<and> decode_READ_MEM (from_bytes bs) = (28, B, C)"
proof -
  let ?w = "push_bit 10 (28 AND 0x3F) OR push_bit 5 (B AND 0x1F) OR (C AND 0x1F)"
  obtain bs where bs: "to_bytes ?w 2 = Some bs" "length bs = 2" "from_bytes bs = ?w"
    using to_bytes_ok [OF layout_READ_MEM(1) [of 28 B C]] by auto
  have "(take_bit 6 (28::int), take_bit 5 B, take_bit 5 C) = (28, B, C)"
    using assms by (simp add: take_bit_5_id)
  then have "decode_READ_MEM ?w = (28, B, C)"
    by (simp only: layout_READ_MEM(2))
  with bs assms show ?thesis
    by (simp add: encode_instruction_def OPCODES_def Let_def)
qed

lemma encode_READ_MEM_bad:
  assumes "py_int tb = Some B" "py_int tc = Some C"
    and "\<not> (0 \<le> B \<and> B \<le> 31 \<and> 0 \<le> C \<and> C \<le> 31)"
  shows "\<exists>s. encode_instruction ''READ_MEM'' [tb, tc] n = Inl (OperandOutOfRange n s)"
  using assms
  by (auto simp add: encode_instruction_def OPCODES_def Let_def)

lemma encode_BCD_ok:
  assumes "m = ''WRITE_MEM'' \<and> A = 61 \<or> m = ''LEQ'' \<and> A = 19"
    and "py_int tb = Some B" "py_int tc = Some C" "py_int td = Some D"
    and "0 \<le> B" "B \<le> 31" "0 \<le> C" "C \<le> 31" "0 \<le> D" "D \<le> 31"
  shows "\<exists>bs. encode_instruction m [tb, tc, td] n =
            Inr (bs, \<lparr>log_mnemonic = m, log_A = A, log_B = B, log_C = C,
                      log_D = Some D\<rparr>) \<and>
          length bs = 3 \<and> decode_BCD (from_bytes bs) = (A, B, C, D)"
proof -
  let ?w = "push_bit 18 (A AND 0x3F) OR push_bit 13 (B AND 0x1F) OR push_bit 8 (C AND 0x1F)
              OR push_bit 3 (D AND 0x1F)"
  obtain bs where bs: "to_bytes ?w 3 = Some bs" "length bs = 3" "from_bytes bs = ?w"
    using to_bytes_ok [OF layout_BCD(1) [of A B C D]] by auto
  have "take_bit 6 A = A"
    using assms(1) by auto
  then have "(take_bit 6 A, take_bit 5 B, take_bit 5 C, take_bit 5 D) = (A, B, C, D)"
    using assms by (simp add: take_bit_5_id)
  then have "decode_BCD ?w = (A, B, C, D)"
    by (simp only: layout_BCD(2))
  with bs assms show ?thesis
    by (auto simp add: encode_instruction_def OPCODES_def Let_def)
qed

lemma encode_BCD_bad:
  assumes "m = ''WRITE_MEM'' \<or> m = ''LEQ''"
    and "py_int tb = Some B" "py_int tc = Some C" "py_int td = Some D"
    and "\<not> (0 \<le> B \<and> B \<le> 31 \<and> 0 \<le> C \<and> C \<le> 31 \<and> 0 \<le> D \<and> D \<le> 31)"
  shows "\<exists>s. encode_instruction m [tb, tc, td] n = Inl (OperandOutOfRange n s)"
  using assms
  by (auto simp add: encode_instruction_def OPCODES_def Let_def)

text \<open>
  C1. For each of the four mnemonics and all operand values that fit their fields (31 bits
  for the constant of LOAD_CONST, 5 bits for every other operand), the encoder succeeds, it
  returns as many bytes as the interpreter fetches for that opcode, and the interpreter's
  field extraction from the big-endian value of those bytes gives back the opcode and
  exactly the operand values that were encoded.
\<close>

theorem codec_round_trip:
  assumes "py_int tb = Some B" and "py_int tc = Some C" and "py_int td = Some D"
    and "0 \<le> B" and "0 \<le> C" and "C \<le> 31" and "0 \<le> D" and "D \<le> 31"
  shows "(B \<le> 2 ^ 31 - 1 \<longrightarrow>
            (\<exists>bs e. encode_instruction ''LOAD_CONST'' [tb, tc] n = Inr (bs, e) \<and>
               length bs = 6 \<and> decode_LOAD_CONST (from_bytes bs) = (57, B, C))) \<and>
         (B \<le> 31 \<longrightarrow>
            (\<exists>bs e. encode_instruction ''READ_MEM'' [tb, tc] n = Inr (bs, e) \<and>
               length bs = 2 \<and> decode_READ_MEM (from_bytes bs) = (28, B, C))) \<and>
         (B \<le> 31 \<longrightarrow>
            (\<exists>bs e. encode_instruction ''WRITE_MEM'' [tb, tc, td] n = Inr (bs, e) \<and>
               length bs = 3 \<and> decode_BCD (from_bytes bs) = (61, B, C, D))) \<and>
         (B \<le> 31 \<longrightarrow>
            (\<exists>bs e. encode_instruction ''LEQ'' [tb, tc, td] n = Inr (bs, e) \<and>
               length bs = 3 \<and> decode_BCD (from_bytes bs) = (19, B, C, D)))"
proof (intro conjI impI)
  assume "B \<le> 2 ^ 31 - 1"
  with assms encode_LOAD_CONST_ok [of tb B tc C n]
  show "\<exists>bs e. encode_instruction ''LOAD_CONST'' [tb, tc] n = Inr (bs, e) \<and>
               length bs = 6 \<and> decode_LOAD_CONST (from_bytes bs) = (57, B, C)"
    by blast
next
  assume "B \<le> 31"
  with assms encode_READ_MEM_ok [of tb B tc C n]
  show "\<exists>bs e. encode_instruction ''READ_MEM'' [tb, tc] n = Inr (bs, e) \<and>
               length bs = 2 \<and> decode_READ_MEM (from_bytes bs) = (28, B, C)"
    by blast
next
  assume "B \<le> 31"
  with assms encode_BCD_ok [of "''WRITE_MEM''" 61 tb B tc C td D n]
  show "\<exists>bs e. encode_instruction ''WRITE_MEM'' [tb, tc, td] n = Inr (bs, e) \<and>
               length bs = 3 \<and> decode_BCD (from_bytes bs) = (61, B, C, D)"
    by blast
next
  assume "B \<le> 31"
  with assms encode_BCD_ok [of "''LEQ''" 19 tb B tc C td D n]
  show "\<exists>bs e. encode_instruction ''LEQ'' [tb, tc, td] n = Inr (bs, e) \<and>
               length bs = 3 \<and> decode_BCD (from_bytes bs) = (19, B, C, D)"
    by blast
qed

text \<open>The round trip on the operands 5, 7 and 3.\<close>

lemma py_int_5: "py_int ''5'' = Some 5" by code_simp
lemma py_int_7: "py_int ''7'' = Some 7" by code_simp
lemma py_int_3: "py_int ''3'' = Some 3" by code_simp

theorem codec_round_trip_witness:
  "(\<exists>bs e. encode_instruction ''LOAD_CONST'' [''5'', ''7''] 1 = Inr (bs, e) \<and>
      length bs = 6 \<and> decode_LOAD_CONST (from_bytes bs) = (57, 5, 7)) \<and>
   (\<exists>bs e. encode_instruction ''READ_MEM'' [''5'', ''7''] 1 = Inr (bs, e) \<and>
      length bs = 2 \<and> decode_READ_MEM (from_bytes bs) = (28, 5, 7)) \<and>
   (\<exists>bs e. encode_instruction ''WRITE_MEM'' [''5'', ''7'', ''3''] 1 = Inr (bs, e) \<and>
      length bs = 3 \<and> decode_BCD (from_bytes bs) = (61, 5, 7, 3)) \<and>
   (\<exists>bs e. encode_instruction ''LEQ'' [''5'', ''7'', ''3''] 1 = Inr (bs, e) \<and>
      length bs = 3 \<and> decode_BCD (from_bytes bs) = (19, 5, 7, 3))"
  using codec_round_trip [OF py_int_5 py_int_7 py_int_3, of 1] by simp

text \<open>
  C4. When the operand tokens are integers, the encoder succeeds if every value lies between
  0 and \<open>2 ^ w - 1\<close> for the width \<open>w\<close> of its field, the bounds included, and otherwise it
  raises the ValueError of a range check and returns no bytes: a value that is negative or
  greater than \<open>2 ^ w - 1\<close> is never masked into the field.
\<close>

theorem encode_boundary:
  assumes "py_int tb = Some B" and "py_int tc = Some C" and "py_int td = Some D"
  shows "(if 0 \<le> B \<and> B \<le> 2 ^ 31 - 1 \<and> 0 \<le> C \<and> C \<le> 31
          then \<exists>bs e. encode_instruction ''LOAD_CONST'' [tb, tc] n = Inr (bs, e)
          else \<exists>s. encode_instruction ''LOAD_CONST'' [tb, tc] n = Inl (OperandOutOfRange n s)) \<and>
         (if 0 \<le> B \<and> B \<le> 2 ^ 5 - 1 \<and> 0 \<le> C \<and> C \<le> 2 ^ 5 - 1
          then \<exists>bs e. encode_instruction ''READ_MEM'' [tb, tc] n = Inr (bs, e)
          else \<exists>s. encode_instruction ''READ_MEM'' [tb, tc] n = Inl (OperandOutOfRange n s)) \<and>
         (if 0 \<le> B \<and> B \<le> 2 ^ 5 - 1 \<and> 0 \<le> C \<and> C \<le> 2 ^ 5 - 1 \<and> 0 \<le> D \<and> D \<le> 2 ^ 5 - 1
          then \<exists>bs e. encode_instruction ''WRITE_MEM'' [tb, tc, td] n = Inr (bs, e)
          else \<exists>s. encode_instruction ''WRITE_MEM'' [tb, tc, td] n = Inl (OperandOutOfRange n s)) \<and>
         (if 0 \<le> B \<and> B \<le> 2 ^ 5 - 1 \<and> 0 \<le> C \<and> C \<le> 2 ^ 5 - 1 \<and> 0 \<le> D \<and> D \<le> 2 ^ 5 - 1
          then \<exists>bs e. encode_instruction ''LEQ'' [tb, tc, td] n = Inr (bs, e)
          else \<exists>s. encode_instruction ''LEQ'' [tb, tc, td] n = Inl (OperandOutOfRange n s))"
proof -
  have r5: "(2::int) ^ 5 - 1 = 31"
    by simp
  have 1: "if 0 \<le> B \<and> B \<le> 2 ^ 31 - 1 \<and> 0 \<le> C \<and> C \<le> 31
          then \<exists>bs e. encode_instruction ''LOAD_CONST'' [tb, tc] n = Inr (bs, e)
          else \<exists>s. encode_instruction ''LOAD_CONST'' [tb, tc] n = Inl (OperandOutOfRange n s)"
  proof (cases "0 \<le> B \<and> B \<le> 2 ^ 31 - 1 \<and> 0 \<le> C \<and> C \<le> 31")
    case True
    with assms encode_LOAD_CONST_ok [of tb B tc C n]
    have "\<exists>bs e. encode_instruction ''LOAD_CONST'' [tb, tc] n = Inr (bs, e)"
      by blast
    then show ?thesis
      unfolding if_P [OF True] .
  next
    case False
    with assms encode_LOAD_CONST_bad [of tb B tc C n]
    have "\<exists>s. encode_instruction ''LOAD_CONST'' [tb, tc] n = Inl (OperandOutOfRange n s)"
      by blast
    then show ?thesis
      unfolding if_not_P [OF False] .
  qed
  have 2: "if 0 \<le> B \<and> B \<le> 2 ^ 5 - 1 \<and> 0 \<le> C \<and> C \<le> 2 ^ 5 - 1
          then \<exists>bs e. encode_instruction ''READ_MEM'' [tb, tc] n = Inr (bs, e)
          else \<exists>s. encode_instruction ''READ_MEM'' [tb, tc] n = Inl (OperandOutOfRange n s)"
  proof (cases "0 \<le> B \<and> B \<le> 2 ^ 5 - 1 \<and> 0 \<le> C \<and> C \<le> 2 ^ 5 - 1")
    case True
    with assms encode_READ_MEM_ok [of tb B tc C n]
    have "\<exists>bs e. encode_instruction ''READ_MEM'' [tb, tc] n = Inr (bs, e)"
      unfolding r5 by blast
    then show ?thesis
      unfolding if_P [OF True] .
  next
    case False
    with assms encode_READ_MEM_bad [of tb B tc C n]
    have "\<exists>s. encode_instruction ''READ_MEM'' [tb, tc] n = Inl (OperandOutOfRange n s)"
      unfolding r5 by blast
    then show ?thesis
      unfolding if_not_P [OF False] .
  qed
  have 3: "if 0 \<le> B \<and> B \<le> 2 ^ 5 - 1 \<and> 0 \<le> C \<and> C \<le> 2 ^ 5 - 1 \<and> 0 \<le> D \<and> D \<le> 2 ^ 5 - 1
          then \<exists>bs e. encode_instruction m [tb, tc, td] n = Inr (bs, e)
          else \<exists>s. encode_instruction m [tb, tc, td] n = Inl (OperandOutOfRange n s)"
    if m: "m = ''WRITE_MEM'' \<and> A = 61 \<or> m = ''LEQ'' \<and> A = 19" for m and A :: int
  proof (cases "0 \<le> B \<and> B \<le> 2 ^ 5 - 1 \<and> 0 \<le> C \<and> C \<le> 2 ^ 5 - 1 \<and> 0 \<le> D \<and> D \<le> 2 ^ 5 - 1")
    case True
    with assms encode_BCD_ok [OF m, of tb B tc C td D n]
    have "\<exists>bs e. encode_instruction m [tb, tc, td] n = Inr (bs, e)"
      unfolding r5 by blast
    then show ?thesis
      unfolding if_P [OF True] .
  next
    case False
    from m have "m = ''WRITE_MEM'' \<or> m = ''LEQ''" by blast
    with False assms encode_BCD_bad [of m tb B tc C td D n]
    have "\<exists>s. encode_instruction m [tb, tc, td] n = Inl (OperandOutOfRange n s)"
      unfolding r5 by blast
    then show ?thesis
      unfolding if_not_P [OF False] .
  qed
  from 1 2 3 [of "''WRITE_MEM''" 61] 3 [of "''LEQ''" 19] show ?thesis
    by blast
qed

text \<open>
  LOAD_CONST accepts the constant \<open>2 ^ 31 - 1\<close> and rejects \<open>2 ^ 31\<close>; the other forms
  accept 31 in every field and reject 32 and \<open>-1\<close>.
\<close>

lemma py_int_max31: "py_int ''2147483647'' = Some 2147483647" by code_simp
lemma py_int_over31: "py_int ''2147483648'' = Some 2147483648" by code_simp
lemma py_int_31: "py_int ''31'' = Some 31" by code_simp
lemma py_int_32: "py_int ''32'' = Some 32" by code_simp
lemma py_int_neg: "py_int ''-1'' = Some (- 1)" by code_simp

theorem encode_boundary_witness:
  "(\<exists>bs e. encode_instruction ''LOAD_CONST'' [''2147483647'', ''31''] 1 = Inr (bs, e)) \<and>
   (\<exists>s. encode_instruction ''LOAD_CONST'' [''2147483648'', ''31''] 1
           = Inl (OperandOutOfRange 1 s)) \<and>
   (\<exists>bs e. encode_instruction ''READ_MEM'' [''31'', ''31''] 1 = Inr (bs, e)) \<and>
   (\<exists>s. encode_instruction ''READ_MEM'' [''31'', ''32''] 1 = Inl (OperandOutOfRange 1 s)) \<and>
   (\<exists>bs e. encode_instruction ''WRITE_MEM'' [''31'', ''31'', ''31''] 1 = Inr (bs, e)) \<and>
   (\<exists>s. encode_instruction ''WRITE_MEM'' [''31'', ''31'', ''32''] 1
           = Inl (OperandOutOfRange 1 s)) \<and>
   (\<exists>bs e. encode_instruction ''LEQ'' [''31'', ''31'', ''31''] 1 = Inr (bs, e)) \<and>
   (\<exists>s. encode_instruction ''LEQ'' [''-1'', ''31'', ''31''] 1 = Inl (OperandOutOfRange 1 s))"
  using encode_boundary [OF py_int_max31 py_int_31 py_int_31, of 1]
    encode_boundary [OF py_int_over31 py_int_31 py_int_31, of 1]
    encode_boundary [OF py_int_31 py_int_31 py_int_31, of 1]
    encode_boundary [OF py_int_31 py_int_32 py_int_32, of 1]
    encode_boundary [OF py_int_31 py_int_31 py_int_32, of 1]
    encode_boundary [OF py_int_neg py_int_31 py_int_31, of 1]
  by simp

section \<open>Failure of the assembler\<close>

text \<open>\<^verbatim>\<open>tokens[0]\<close> exists: the split of a line always has a first piece.\<close>

lemma re_split_ws_nonempty: "re_split_ws s \<noteq> []"
proof (induction s)
  case Nil
  show ?case by simp
next
  case (Cons c cs)
  show ?case
  proof (cases "is_space c")
    case False
    then show ?thesis
      by (subst re_split_ws.simps) (simp split: list.split del: re_split_ws.simps)
  next
    case True
    show ?thesis
    proof (cases cs)
      case Nil
      with True show ?thesis by simp
    next
      case (Cons d ds)
      with True \<open>re_split_ws cs \<noteq> []\<close> show ?thesis
        by (subst re_split_ws.simps) (simp del: re_split_ws.simps)
    qed
  qed
qed

lemma to_bytes_LOAD_CONST:
  "to_bytes (push_bit 42 (a AND 0x3F) OR push_bit 11 (b AND 0x7FFFFFFF) OR push_bit 6 (c AND 0x1F)) 6 \<noteq> None"
  using to_bytes_ok [OF layout_LOAD_CONST(1) [of a b c]] by auto

lemma to_bytes_READ_MEM:
  "to_bytes (push_bit 10 (a AND 0x3F) OR push_bit 5 (b AND 0x1F) OR (c AND 0x1F)) 2 \<noteq> None"
  using to_bytes_ok [OF layout_READ_MEM(1) [of a b c]] by auto

lemma to_bytes_BCD:
  "to_bytes (push_bit 18 (a AND 0x3F) OR push_bit 13 (b AND 0x1F) OR push_bit 8 (c AND 0x1F)
      OR push_bit 3 (d AND 0x1F)) 3 \<noteq> None"
  using to_bytes_ok [OF layout_BCD(1) [of a b c d]] by auto

lemma encode_instruction_no_overflow:
  "encode_instruction mnemonic operands line_num \<noteq> Inl IntTooBig"
proof (cases "OPCODES mnemonic")
  case None
  then show ?thesis
    by (simp add: encode_instruction_def)
next
  case (Some A)
  consider "mnemonic = ''LOAD_CONST''" | "mnemonic = ''READ_MEM''" | "mnemonic = ''WRITE_MEM''"
    | "mnemonic = ''LEQ''"
    | "mnemonic \<noteq> ''LOAD_CONST''" "mnemonic \<noteq> ''READ_MEM''" "mnemonic \<noteq> ''WRITE_MEM''"
      "mnemonic \<noteq> ''LEQ''"
    by blast
  then show ?thesis
  proof cases
    case 1
    show ?thesis
      unfolding encode_instruction_def Some option.case if_P [OF 1] Let_def
      using to_bytes_LOAD_CONST
      by (auto split: option.splits list.splits) (metis option.distinct(1))+
  next
    case 2
    then have n: "mnemonic \<noteq> ''LOAD_CONST''" by simp
    show ?thesis
      unfolding encode_instruction_def Some option.case if_not_P [OF n] if_P [OF 2] Let_def
      using to_bytes_READ_MEM
      by (auto split: option.splits list.splits) (metis option.distinct(1))+
  next
    case 3
    then have n: "mnemonic \<noteq> ''LOAD_CONST''" "mnemonic \<noteq> ''READ_MEM''" by simp_all
    show ?thesis
      unfolding encode_instruction_def Some option.case if_not_P [OF n(1)] if_not_P [OF n(2)]
        if_P [OF 3] Let_def
      using to_bytes_BCD
      by (auto split: option.splits list.splits) (metis option.distinct(1))+
  next
    case 4
    then have n: "mnemonic \<noteq> ''LOAD_CONST''" "mnemonic \<noteq> ''READ_MEM''"
        "mnemonic \<noteq> ''WRITE_MEM''" by simp_all
    show ?thesis
      unfolding encode_instruction_def Some option.case if_not_P [OF n(1)] if_not_P [OF n(2)]
        if_not_P [OF n(3)] if_P [OF 4] Let_def
      using to_bytes_BCD
      by (auto split: option.splits list.splits) (metis option.distinct(1))+
  next
    case 5
    then show ?thesis
      unfolding encode_instruction_def Some option.case
      by simp
  qed
qed

lemma encode_line_no_overflow:
  "encode_line line_num l \<noteq> Some (Inl IntTooBig)"
  using encode_instruction_no_overflow
  unfolding encode_line_def Let_def
  by (auto split: if_splits)

lemma assemble_first_failure:
  assumes "i < length ls"
    and "encode_line (line_num + i) (ls ! i) = Some (Inl e)"
    and "\<forall>j<i. \<forall>e'. encode_line (line_num + j) (ls ! j) \<noteq> Some (Inl e')"
  shows "assemble_lines line_num ls binary_output log_output =
     \<lparr>output_file = None, log_file = None,
      asm_stderr = Some (Reported (line_num + i) e), asm_exit = 1\<rparr>"
  using assms
proof (induction ls arbitrary: i line_num binary_output log_output)
  case Nil
  then show ?case by simp
next
  case (Cons l ls)
  show ?case
  proof (cases i)
    case 0
    with Cons.prems(2) have f: "encode_line line_num l = Some (Inl e)"
      by simp
    with encode_line_no_overflow [of line_num l] have "e \<noteq> IntTooBig"
      by auto
    with f show ?thesis
      by (simp add: 0)
  next
    case (Suc k)
    from Cons.prems(1) Suc have k: "k < length ls"
      by simp
    from Cons.prems(2) Suc have fk: "encode_line (Suc line_num + k) (ls ! k) = Some (Inl e)"
      by simp
    from Cons.prems(3) Suc
    have ok: "\<forall>j<k. \<forall>e'. encode_line (Suc line_num + j) (ls ! j) \<noteq> Some (Inl e')"
      by (metis Suc_less_eq add_Suc_shift nth_Cons_Suc)
    from Cons.prems(3) Suc have l: "\<forall>e'. encode_line line_num l \<noteq> Some (Inl e')"
      by (metis add.right_neutral nth_Cons_0 zero_less_Suc)
    have IH: "assemble_lines (Suc line_num) ls bo lo =
       \<lparr>output_file = None, log_file = None,
        asm_stderr = Some (Reported (Suc line_num + k) e), asm_exit = 1\<rparr>" for bo lo
      by (rule Cons.IH [OF k fk ok])
    from l show ?thesis
      by (auto simp add: IH Suc split: option.splits sum.splits)
  qed
qed

text \<open>
  C5. When some line of the text is not skipped and makes the encoder raise (an unknown
  mnemonic, a wrong number of operands, an operand token that is not an integer, or an
  operand out of range), there is a first such line; the exception of that line is a
  ValueError, and the run of the assembler ends there: it has written neither the binary
  file nor the log file, it has printed the message with the number of that line, counted
  from 1, and its exit status is 1.
\<close>

theorem assembler_fail_fast:
  assumes "i < length lines"
    and "encode_line (Suc i) (lines ! i) = Some (Inl e)"
  shows "\<exists>k e'. k \<le> i \<and> encode_line (Suc k) (lines ! k) = Some (Inl e') \<and>
           e' \<noteq> IntTooBig \<and>
           (\<forall>j<k. \<forall>e''. encode_line (Suc j) (lines ! j) \<noteq> Some (Inl e'')) \<and>
           assemble lines =
             \<lparr>output_file = None, log_file = None,
              asm_stderr = Some (Reported (Suc k) e'), asm_exit = 1\<rparr>"
proof -
  define k where "k = (LEAST j. \<exists>e'. encode_line (Suc j) (lines ! j) = Some (Inl e'))"
  from assms(2) have ex: "\<exists>e'. encode_line (Suc i) (lines ! i) = Some (Inl e')"
    by blast
  from LeastI [of "\<lambda>j. \<exists>e'. encode_line (Suc j) (lines ! j) = Some (Inl e')", OF ex]
  obtain e' where e': "encode_line (Suc k) (lines ! k) = Some (Inl e')"
    unfolding k_def by blast
  have ki: "k \<le> i"
    unfolding k_def by (rule Least_le) (rule ex)
  have first: "\<forall>j<k. \<forall>e''. encode_line (Suc j) (lines ! j) \<noteq> Some (Inl e'')"
    using not_less_Least [of _ "\<lambda>j. \<exists>e'. encode_line (Suc j) (lines ! j) = Some (Inl e')"]
    unfolding k_def by blast
  from ki assms(1) have kl: "k < length lines"
    by simp
  have "assemble_lines 1 lines [] [] =
     \<lparr>output_file = None, log_file = None,
      asm_stderr = Some (Reported (1 + k) e'), asm_exit = 1\<rparr>"
    by (rule assemble_first_failure) (use kl e' first in simp_all)
  then have "assemble lines =
     \<lparr>output_file = None, log_file = None,
      asm_stderr = Some (Reported (Suc k) e'), asm_exit = 1\<rparr>"
    by (simp add: assemble_def)
  moreover from e' encode_line_no_overflow [of "Suc k" "lines ! k"] have "e' \<noteq> IntTooBig"
    by auto
  ultimately show ?thesis
    using ki e' first by blast
qed

text \<open>A text whose third line has an operand that is not an integer.\<close>

lemma bad_third_line: "encode_line (Suc 2) ([''LOAD_CONST 10 0'', ''# note'', ''leq 0 2 x''] ! 2)
    = Some (Inl (InvalidLiteral ''x''))"
  by code_simp

lemma bad_third_line_text: "assemble [''LOAD_CONST 10 0'', ''# note'', ''leq 0 2 x''] =
     \<lparr>output_file = None, log_file = None,
      asm_stderr = Some (Reported 3 (InvalidLiteral ''x'')), asm_exit = 1\<rparr>"
  by code_simp

theorem assembler_fail_fast_witness:
  "2 < length [''LOAD_CONST 10 0'', ''# note'', ''leq 0 2 x''] \<and>
   encode_line (Suc 2) ([''LOAD_CONST 10 0'', ''# note'', ''leq 0 2 x''] ! 2)
     = Some (Inl (InvalidLiteral ''x'')) \<and>
   (\<exists>k e'. k \<le> 2 \<and>
      encode_line (Suc k) ([''LOAD_CONST 10 0'', ''# note'', ''leq 0 2 x''] ! k)
        = Some (Inl e') \<and>
      e' \<noteq> IntTooBig \<and>
      (\<forall>j<k. \<forall>e''. encode_line (Suc j) ([''LOAD_CONST 10 0'', ''# note'', ''leq 0 2 x''] ! j)
         \<noteq> Some (Inl e'')) \<and>
      assemble [''LOAD_CONST 10 0'', ''# note'', ''leq 0 2 x''] =
        \<lparr>output_file = None, log_file = None,
         asm_stderr = Some (Reported (Suc k) e'), asm_exit = 1\<rparr>) \<and>
   assemble [''LOAD_CONST 10 0'', ''# note'', ''leq 0 2 x''] =
     \<lparr>output_file = None, log_file = None,
      asm_stderr = Some (Reported 3 (InvalidLiteral ''x'')), asm_exit = 1\<rparr>"
proof -
  have h1: "2 < length [''LOAD_CONST 10 0'', ''# note'', ''leq 0 2 x'']"
    by simp
  from assembler_fail_fast [OF h1 bad_third_line] h1 bad_third_line bad_third_line_text show ?thesis
    by blast
qed

section \<open>The effect of one instruction\<close>

text \<open>
  The decoded fields are masked, so a register index is always between 0 and 31 and the
  constant of LOAD_CONST has 31 bits; with 32 registers no register access fails.
\<close>

lemma and31_range: "0 \<le> (x::int) AND 0x1F \<and> x AND 0x1F \<le> 31"
  by (simp add: AND_upper2')

lemma and31bit_range: "0 \<le> (x::int) AND 0x7FFFFFFF \<and> x AND 0x7FFFFFFF \<le> 2 ^ 31 - 1"
  by (simp add: AND_upper2')

lemma decode_BCD_range:
  assumes "decode_BCD x = (a, b, c, d)"
  shows "0 \<le> b \<and> b \<le> 31 \<and> 0 \<le> c \<and> c \<le> 31 \<and> 0 \<le> d \<and> d \<le> 31"
  using assms and31_range unfolding decode_BCD_def by auto

lemma decode_READ_MEM_range:
  assumes "decode_READ_MEM x = (a, b, c)"
  shows "0 \<le> b \<and> b \<le> 31 \<and> 0 \<le> c \<and> c \<le> 31"
  using assms and31_range unfolding decode_READ_MEM_def by auto

lemma decode_LOAD_CONST_range:
  assumes "decode_LOAD_CONST x = (a, b, c)"
  shows "0 \<le> b \<and> b \<le> 2 ^ 31 - 1 \<and> 0 \<le> c \<and> c \<le> 31"
  using assms and31_range and31bit_range unfolding decode_LOAD_CONST_def by auto

lemma list_get_in_range:
  "0 \<le> i \<Longrightarrow> i < int (length xs) \<Longrightarrow> list_get xs i = Some (xs ! nat i)"
  by (simp add: list_get_def py_index_def)

lemma list_set_in_range:
  "0 \<le> i \<Longrightarrow> i < int (length xs) \<Longrightarrow> list_set xs i v = Some (xs[nat i := v])"
  by (simp add: list_set_def py_index_def)

lemma step_LEQ:
  assumes "length (registers vm) = 32"
    and "pc vm + 3 \<le> length (program vm)"
    and "peek_opcode vm = 19"
    and "decode_BCD (from_bytes (slice (program vm) (pc vm) (pc vm + 3))) = (A', B, C, D)"
  shows "step vm = Inr (vm\<lparr>registers := (registers vm)
                    [nat C := (if registers vm ! nat B \<le> registers vm ! nat D then 1 else 0)],
                  pc := pc vm + 3\<rparr>)"
proof -
  from decode_BCD_range [OF assms(4)]
  have r: "0 \<le> B" "B \<le> 31" "0 \<le> C" "C \<le> 31" "0 \<le> D" "D \<le> 31"
    by simp_all
  with assms(1) have g: "list_get (registers vm) B = Some (registers vm ! nat B)"
      "list_get (registers vm) D = Some (registers vm ! nat D)"
      "\<And>v. list_set (registers vm) C v = Some ((registers vm)[nat C := v])"
    by (simp_all add: list_get_in_range list_set_in_range)
  from assms(2,3) show ?thesis
    unfolding peek_opcode_def
    by (simp add: step_def Let_def assms(4) g)
qed

lemma step_WRITE_MEM_oob:
  assumes "length (registers vm) = 32"
    and "pc vm + 3 \<le> length (program vm)"
    and "peek_opcode vm = 61"
    and "decode_BCD (from_bytes (slice (program vm) (pc vm) (pc vm + 3))) = (A', B, C, D)"
    and "registers vm ! nat C + D < 0 \<or> int (length (memory vm)) \<le> registers vm ! nat C + D"
  shows "step vm = Inl (MemoryOutOfBounds (registers vm ! nat C + D), vm)"
proof -
  from decode_BCD_range [OF assms(4)]
  have r: "0 \<le> B" "B \<le> 31" "0 \<le> C" "C \<le> 31" "0 \<le> D" "D \<le> 31"
    by simp_all
  with assms(1) have g: "list_get (registers vm) B = Some (registers vm ! nat B)"
      "list_get (registers vm) C = Some (registers vm ! nat C)"
    by (simp_all add: list_get_in_range)
  from assms(2,3,5) show ?thesis
    unfolding peek_opcode_def
    by (auto simp add: step_def Let_def assms(4) g)
qed


text \<open>
  C2. On a machine with 32 registers whose next three bytes carry the opcode 19, one
  iteration of \<^verbatim>\<open>execute\<close> with the decoded fields \<open>B\<close>, \<open>C\<close>, \<open>D\<close> stores 1 in register \<open>C\<close>
  if register \<open>B\<close> is at most register \<open>D\<close> and 0 otherwise, advances the pc by 3 and
  changes nothing else: the other registers, the memory and the program are those of the
  machine before. Assembling and running the three lines \<^verbatim>\<open>LOAD_CONST 10 0\<close>,
  \<^verbatim>\<open>LOAD_CONST 20 1\<close>, \<^verbatim>\<open>LEQ 0 2 1\<close> from the fresh machine ends with 1 in register 2.
\<close>

theorem leq_semantics:
  assumes "length (registers vm) = 32"
    and "pc vm + 3 \<le> length (program vm)"
    and "peek_opcode vm = 19"
    and "decode_BCD (from_bytes (slice (program vm) (pc vm) (pc vm + 3))) = (A', B, C, D)"
  shows "step vm = Inr (vm\<lparr>registers := (registers vm)
                    [nat C := (if registers vm ! nat B \<le> registers vm ! nat D then 1 else 0)],
                  pc := pc vm + 3\<rparr>) \<and>
         register_after [''LOAD_CONST 10 0'', ''LOAD_CONST 20 1'', ''LEQ 0 2 1''] 2 = Some 1"
proof
  show "step vm = Inr (vm\<lparr>registers := (registers vm)
                    [nat C := (if registers vm ! nat B \<le> registers vm ! nat D then 1 else 0)],
                  pc := pc vm + 3\<rparr>)"
    using assms by (rule step_LEQ)
  show "register_after [''LOAD_CONST 10 0'', ''LOAD_CONST 20 1'', ''LEQ 0 2 1''] 2 = Some 1"
    by code_simp
qed

text \<open>The three bytes of \<^verbatim>\<open>LEQ 0 2 1\<close> on a fresh machine: both registers hold 0.\<close>

theorem leq_semantics_witness:
  "length (registers (init_vm 4 [76, 2, 8])) = 32 \<and>
   pc (init_vm 4 [76, 2, 8]) + 3 \<le> length (program (init_vm 4 [76, 2, 8])) \<and>
   peek_opcode (init_vm 4 [76, 2, 8]) = 19 \<and>
   decode_BCD (from_bytes (slice (program (init_vm 4 [76, 2, 8])) (pc (init_vm 4 [76, 2, 8]))
       (pc (init_vm 4 [76, 2, 8]) + 3))) = (19, 0, 2, 1) \<and>
   step (init_vm 4 [76, 2, 8]) =
     Inr ((init_vm 4 [76, 2, 8])\<lparr>registers := (replicate 32 0)[2 := 1], pc := 3\<rparr>) \<and>
   register_after [''LOAD_CONST 10 0'', ''LOAD_CONST 20 1'', ''LEQ 0 2 1''] 2 = Some 1"
proof -
  have h1: "length (registers (init_vm 4 [76, 2, 8])) = 32"
    by (simp add: init_vm_def)
  have h2: "pc (init_vm 4 [76, 2, 8]) + 3 \<le> length (program (init_vm 4 [76, 2, 8]))"
    by (simp add: init_vm_def)
  have h3: "peek_opcode (init_vm 4 [76, 2, 8]) = 19"
    by (simp add: init_vm_def peek_opcode_def)
  have h4: "decode_BCD (from_bytes (slice (program (init_vm 4 [76, 2, 8]))
      (pc (init_vm 4 [76, 2, 8])) (pc (init_vm 4 [76, 2, 8]) + 3))) = (19, 0, 2, 1)"
    by code_simp
  have r: "registers (init_vm 4 [76, 2, 8]) = replicate 32 0" "pc (init_vm 4 [76, 2, 8]) = 0"
    by (simp_all add: init_vm_def)
  from leq_semantics [OF h1 h2 h3 h4] h1 h2 h3 h4 show ?thesis
    by (simp add: r)
qed

text \<open>
  C6. On a machine with 32 registers whose next three bytes carry the opcode 61, when the
  address \<open>registers[C] + D\<close> is negative or not below the size of the memory, the iteration
  raises the ValueError for an address outside the memory, and so does \<^verbatim>\<open>execute\<close>; the
  machine they leave is the machine before: no memory cell and no register is changed and
  the pc has not advanced.
\<close>

theorem write_mem_out_of_bounds:
  assumes "length (registers vm) = 32"
    and "pc vm + 3 \<le> length (program vm)"
    and "peek_opcode vm = 61"
    and "decode_BCD (from_bytes (slice (program vm) (pc vm) (pc vm + 3))) = (A', B, C, D)"
    and "registers vm ! nat C + D < 0 \<or> int (length (memory vm)) \<le> registers vm ! nat C + D"
  shows "step vm = Inl (MemoryOutOfBounds (registers vm ! nat C + D), vm) \<and>
         execute vm = Inl (MemoryOutOfBounds (registers vm ! nat C + D), vm)"
proof -
  have s: "step vm = Inl (MemoryOutOfBounds (registers vm ! nat C + D), vm)"
    using assms by (rule step_WRITE_MEM_oob)
  from assms(2) have "pc vm < length (program vm)"
    by simp
  then have "execute vm = Inl (MemoryOutOfBounds (registers vm ! nat C + D), vm)"
    by (subst execute.simps) (simp add: s)
  with s show ?thesis
    by simp
qed

text \<open>\<^verbatim>\<open>WRITE_MEM 0 0 3\<close> on a fresh machine with two memory cells: the address is 3.\<close>

theorem write_mem_out_of_bounds_witness:
  "length (registers (init_vm 2 [244, 0, 24])) = 32 \<and>
   pc (init_vm 2 [244, 0, 24]) + 3 \<le> length (program (init_vm 2 [244, 0, 24])) \<and>
   peek_opcode (init_vm 2 [244, 0, 24]) = 61 \<and>
   decode_BCD (from_bytes (slice (program (init_vm 2 [244, 0, 24]))
       (pc (init_vm 2 [244, 0, 24])) (pc (init_vm 2 [244, 0, 24]) + 3))) = (61, 0, 0, 3) \<and>
   int (length (memory (init_vm 2 [244, 0, 24]))) \<le> registers (init_vm 2 [244, 0, 24]) ! nat 0 + 3 \<and>
   step (init_vm 2 [244, 0, 24]) = Inl (MemoryOutOfBounds 3, init_vm 2 [244, 0, 24]) \<and>
   execute (init_vm 2 [244, 0, 24]) = Inl (MemoryOutOfBounds 3, init_vm 2 [244, 0, 24])"
proof -
  have h1: "length (registers (init_vm 2 [244, 0, 24])) = 32"
    by (simp add: init_vm_def)
  have h2: "pc (init_vm 2 [244, 0, 24]) + 3 \<le> length (program (init_vm 2 [244, 0, 24]))"
    by (simp add: init_vm_def)
  have h3: "peek_opcode (init_vm 2 [244, 0, 24]) = 61"
    by (simp add: init_vm_def peek_opcode_def)
  have h4: "decode_BCD (from_bytes (slice (program (init_vm 2 [244, 0, 24]))
      (pc (init_vm 2 [244, 0, 24])) (pc (init_vm 2 [244, 0, 24]) + 3))) = (61, 0, 0, 3)"
    by code_simp
  have h5: "registers (init_vm 2 [244, 0, 24]) ! nat 0 + 3 < 0 \<or>
      int (length (memory (init_vm 2 [244, 0, 24]))) \<le> registers (init_vm 2 [244, 0, 24]) ! nat 0 + 3"
    by (simp add: init_vm_def)
  have r: "registers (init_vm 2 [244, 0, 24]) ! nat 0 + 3 = 3"
    by (simp add: init_vm_def)
  have m: "int (length (memory (init_vm 2 [244, 0, 24])))
      \<le> registers (init_vm 2 [244, 0, 24]) ! nat 0 + 3"
    by (simp add: init_vm_def)
  have "step (init_vm 2 [244, 0, 24]) = Inl (MemoryOutOfBounds 3, init_vm 2 [244, 0, 24]) \<and>
      execute (init_vm 2 [244, 0, 24]) = Inl (MemoryOutOfBounds 3, init_vm 2 [244, 0, 24])"
    using write_mem_out_of_bounds [OF h1 h2 h3 h4 h5] unfolding r .
  with h1 h2 h3 h4 m show ?thesis
    by blast
qed

section \<open>Writing to the memory\<close>

lemma step_WRITE_MEM:
  assumes "length (registers vm) = 32"
    and "pc vm + 3 \<le> length (program vm)"
    and "peek_opcode vm = 61"
    and "decode_BCD (from_bytes (slice (program vm) (pc vm) (pc vm + 3))) = (A', B, C, D)"
    and "0 \<le> registers vm ! nat C + D"
    and "registers vm ! nat C + D < int (length (memory vm))"
  shows "step vm = Inr (vm\<lparr>memory := (memory vm)
                    [nat (registers vm ! nat C + D) := registers vm ! nat B],
                  pc := pc vm + 3\<rparr>)"
proof -
  from decode_BCD_range [OF assms(4)]
  have r: "0 \<le> B" "B \<le> 31" "0 \<le> C" "C \<le> 31" "0 \<le> D" "D \<le> 31"
    by simp_all
  with assms(1) have g: "list_get (registers vm) B = Some (registers vm ! nat B)"
      "list_get (registers vm) C = Some (registers vm ! nat C)"
    by (simp_all add: list_get_in_range)
  from assms(5,6)
  have m: "\<And>v. list_set (memory vm) (registers vm ! nat C + D) v
      = Some ((memory vm)[nat (registers vm ! nat C + D) := v])"
    by (simp add: list_set_in_range)
  from assms(2,3,5,6) show ?thesis
    unfolding peek_opcode_def
    by (simp add: step_def Let_def assms(4) g m)
qed

text \<open>
  C3, as it is stated, fails: after \<^verbatim>\<open>LOAD_CONST 5 0\<close> the base register 0 holds 5, not 0, so
  \<^verbatim>\<open>WRITE_MEM 0 0 3\<close> does not write memory cell 3, and that cell does not hold 5 at the end.
\<close>

theorem memory_cell_3_not_written:
  "memory_after [''LOAD_CONST 5 0'', ''WRITE_MEM 0 0 3''] 3 \<noteq> Some 5"
  by code_simp

text \<open>
  C3, amended. On a machine with 32 registers whose next three bytes carry the opcode 61,
  when the address \<open>registers[C] + D\<close> lies in the memory, one iteration stores
  \<open>registers[B]\<close> in the memory cell at that address, advances the pc by 3 and changes
  nothing else. Assembling and running \<^verbatim>\<open>LOAD_CONST 5 0\<close> and \<^verbatim>\<open>WRITE_MEM 0 0 3\<close> from the
  fresh machine therefore writes to the address \<open>5 + 3\<close>: at the end memory cell 8 holds 5,
  memory cell 3 still holds 0 and register 0 holds 5.
\<close>

theorem write_mem_scenario:
  assumes "length (registers vm) = 32"
    and "pc vm + 3 \<le> length (program vm)"
    and "peek_opcode vm = 61"
    and "decode_BCD (from_bytes (slice (program vm) (pc vm) (pc vm + 3))) = (A', B, C, D)"
    and "0 \<le> registers vm ! nat C + D"
    and "registers vm ! nat C + D < int (length (memory vm))"
  shows "step vm = Inr (vm\<lparr>memory := (memory vm)
                    [nat (registers vm ! nat C + D) := registers vm ! nat B],
                  pc := pc vm + 3\<rparr>) \<and>
         memory_after [''LOAD_CONST 5 0'', ''WRITE_MEM 0 0 3''] 8 = Some 5 \<and>
         memory_after [''LOAD_CONST 5 0'', ''WRITE_MEM 0 0 3''] 3 = Some 0 \<and>
         register_after [''LOAD_CONST 5 0'', ''WRITE_MEM 0 0 3''] 0 = Some 5"
proof (intro conjI)
  show "step vm = Inr (vm\<lparr>memory := (memory vm)
                    [nat (registers vm ! nat C + D) := registers vm ! nat B],
                  pc := pc vm + 3\<rparr>)"
    using assms by (rule step_WRITE_MEM)
  show "memory_after [''LOAD_CONST 5 0'', ''WRITE_MEM 0 0 3''] 8 = Some 5"
    by code_simp
  show "memory_after [''LOAD_CONST 5 0'', ''WRITE_MEM 0 0 3''] 3 = Some 0"
    by code_simp
  show "register_after [''LOAD_CONST 5 0'', ''WRITE_MEM 0 0 3''] 0 = Some 5"
    by code_simp
qed

text \<open>The state after \<^verbatim>\<open>LOAD_CONST 5 0\<close>, with 16 memory cells, at the \<^verbatim>\<open>WRITE_MEM 0 0 3\<close>.\<close>

theorem write_mem_scenario_witness:
  "length (registers \<lparr>registers = (replicate 32 0)[0 := 5], memory = replicate 16 0,
      program = [228, 0, 0, 0, 40, 0, 244, 0, 24], pc = 6\<rparr>) = 32 \<and>
   peek_opcode \<lparr>registers = (replicate 32 0)[0 := 5], memory = replicate 16 0,
      program = [228, 0, 0, 0, 40, 0, 244, 0, 24], pc = 6\<rparr> = 61 \<and>
   decode_BCD (from_bytes (slice [228, 0, 0, 0, 40, 0, 244, 0, 24] 6 9)) = (61, 0, 0, 3) \<and>
   step \<lparr>registers = (replicate 32 0)[0 := 5], memory = replicate 16 0,
      program = [228, 0, 0, 0, 40, 0, 244, 0, 24], pc = 6\<rparr> =
     Inr \<lparr>registers = (replicate 32 0)[0 := 5], memory = (replicate 16 0)[8 := 5],
      program = [228, 0, 0, 0, 40, 0, 244, 0, 24], pc = 9\<rparr> \<and>
   memory_after [''LOAD_CONST 5 0'', ''WRITE_MEM 0 0 3''] 8 = Some 5 \<and>
   memory_after [''LOAD_CONST 5 0'', ''WRITE_MEM 0 0 3''] 3 = Some 0"
proof -
  let ?vm = "\<lparr>registers = (replicate 32 0)[0 := 5], memory = replicate 16 (0::int),
      program = [228, 0, 0, 0, 40, 0, 244, 0, 24], pc = 6\<rparr>"
  have h1: "length (registers ?vm) = 32"
    by simp
  have h2: "pc ?vm + 3 \<le> length (program ?vm)"
    by simp
  have h3: "peek_opcode ?vm = 61"
    by (simp add: peek_opcode_def)
  have d: "decode_BCD (from_bytes (slice [228, 0, 0, 0, 40, 0, 244, 0, 24] 6 9)) = (61, 0, 0, 3)"
    by code_simp
  then have h4: "decode_BCD (from_bytes (slice (program ?vm) (pc ?vm) (pc ?vm + 3)))
      = (61, 0, 0, 3)"
    by simp
  have h5: "0 \<le> registers ?vm ! nat 0 + 3"
    by simp
  have h6: "registers ?vm ! nat 0 + 3 < int (length (memory ?vm))"
    by simp
  from write_mem_scenario [OF h1 h2 h3 h4 h5 h6] h1 h3 d show ?thesis
    by simp
qed

section \<open>Termination of the interpreter\<close>

text \<open>
  An iteration changes neither the program nor, when it raises, the machine; when it does
  not raise it adds the width of its instruction to the pc.
\<close>

lemma step_Inr_pc:
  assumes "step vm = Inr vm'"
  shows "pc vm' = pc vm + instr_width (peek_opcode vm) \<and> 2 \<le> instr_width (peek_opcode vm) \<and>
         program vm' = program vm \<and> pc vm' \<le> length (program vm)"
  using assms
  unfolding step_def Let_def peek_opcode_def instr_width_def
  by (auto split: if_splits option.splits prod.splits)

lemma step_Inl_state:
  assumes "step vm = Inl (e, vm')"
  shows "vm' = vm"
  using assms
  unfolding step_def Let_def
  by (auto split: if_splits option.splits prod.splits)

lemma execute_n_enough:
  "length (program vm) - pc vm < n \<Longrightarrow> execute_n n vm = Some (execute vm)"
proof (induction n arbitrary: vm)
  case 0
  then show ?case by simp
next
  case (Suc n)
  show ?case
  proof (cases "pc vm < length (program vm)")
    case False
    then show ?thesis
      by (subst execute.simps) simp
  next
    case True
    show ?thesis
    proof (cases "step vm")
      case (Inl e)
      with True show ?thesis
        by (subst execute.simps) simp
    next
      case (Inr vm')
      from step_Inr_pc [OF Inr] True Suc.prems
      have "length (program vm') - pc vm' < n"
        by auto
      then have "execute_n n vm' = Some (execute vm')"
        by (rule Suc.IH)
      with True Inr show ?thesis
        by (subst execute.simps) simp
    qed
  qed
qed

lemma execute_Inr:
  "execute vm = Inr vm' \<Longrightarrow>
     length (program vm') \<le> pc vm' \<and> pc vm \<le> pc vm' \<and> program vm' = program vm"
proof (induction vm rule: execute.induct)
  case (1 vm)
  show ?case
  proof (cases "pc vm < length (program vm)")
    case False
    with "1.prems" show ?thesis
      by (subst (asm) execute.simps) auto
  next
    case True
    from "1.prems" True obtain vm1 where s: "step vm = Inr vm1" and e: "execute vm1 = Inr vm'"
      by (subst (asm) execute.simps) (auto split: sum.splits)
    from "1.IH" [OF True s e] step_Inr_pc [OF s] show ?thesis
      by auto
  qed
qed

lemma execute_Inl:
  "execute vm = Inl (e, vm') \<Longrightarrow> pc vm \<le> pc vm' \<and> program vm' = program vm"
proof (induction vm rule: execute.induct)
  case (1 vm)
  show ?case
  proof (cases "pc vm < length (program vm)")
    case False
    with "1.prems" show ?thesis
      by (subst (asm) execute.simps) auto
  next
    case True
    show ?thesis
    proof (cases "step vm")
      case (Inl x)
      with "1.prems" True have "x = (e, vm')"
        by (subst (asm) execute.simps) simp
      with Inl step_Inl_state [of vm e vm'] show ?thesis
        by simp
    next
      case (Inr vm1)
      with "1.prems" True have e: "execute vm1 = Inl (e, vm')"
        by (subst (asm) execute.simps) simp
      from "1.IH" [OF True Inr e] step_Inr_pc [OF Inr] show ?thesis
        by auto
    qed
  qed
qed

text \<open>
  C8. An iteration of the loop that raises nothing moves the pc forward by the width of the
  opcode it executed, which is at least 2. The loop therefore ends for every image and every
  starting state: an iteration bound of one more than the number of bytes between the pc and
  the end of the image is never used up. When the loop ends normally the pc has reached the
  end of the image, and whether it ends normally or by an exception the pc is never smaller
  than it was at the start.
\<close>

theorem interpreter_terminates:
  "(step vm = Inr vm1 \<longrightarrow>
      pc vm1 = pc vm + instr_width (peek_opcode vm) \<and> 2 \<le> instr_width (peek_opcode vm)) \<and>
   execute_n (Suc (length (program vm) - pc vm)) vm = Some (execute vm) \<and>
   (execute vm = Inr vm2 \<longrightarrow> length (program vm2) \<le> pc vm2 \<and> pc vm \<le> pc vm2) \<and>
   (execute vm = Inl (e, vm3) \<longrightarrow> pc vm \<le> pc vm3)"
proof (intro conjI impI)
  assume "step vm = Inr vm1"
  from step_Inr_pc [OF this] show "pc vm1 = pc vm + instr_width (peek_opcode vm)"
    and "2 \<le> instr_width (peek_opcode vm)"
    by blast+
next
  show "execute_n (Suc (length (program vm) - pc vm)) vm = Some (execute vm)"
    by (rule execute_n_enough) simp
next
  assume "execute vm = Inr vm2"
  from execute_Inr [OF this] show "length (program vm2) \<le> pc vm2" and "pc vm \<le> pc vm2"
    by blast+
next
  assume "execute vm = Inl (e, vm3)"
  from execute_Inl [OF this] show "pc vm \<le> pc vm3"
    by blast
qed

text \<open>
  The image \<^verbatim>\<open>READ_MEM 0 0\<close>, which runs to its end, and the same image followed by the first
  byte of a LOAD_CONST, which ends by an exception after one instruction.
\<close>

lemma read_mem_image_step: "step (init_vm 4 [112, 0]) = Inr ((init_vm 4 [112, 0])\<lparr>pc := 2\<rparr>)"
  by code_simp

lemma read_mem_image_execute: "execute (init_vm 4 [112, 0]) = Inr ((init_vm 4 [112, 0])\<lparr>pc := 2\<rparr>)"
  by code_simp

lemma cut_image_execute: "execute (init_vm 4 [112, 0, 228]) =
    Inl (TruncatedInstruction ''LOAD_CONST'', (init_vm 4 [112, 0, 228])\<lparr>pc := 2\<rparr>)"
  by code_simp

theorem interpreter_terminates_witness:
  "step (init_vm 4 [112, 0]) = Inr ((init_vm 4 [112, 0])\<lparr>pc := 2\<rparr>) \<and>
   pc ((init_vm 4 [112, 0])\<lparr>pc := 2\<rparr>)
     = pc (init_vm 4 [112, 0]) + instr_width (peek_opcode (init_vm 4 [112, 0])) \<and>
   2 \<le> instr_width (peek_opcode (init_vm 4 [112, 0])) \<and>
   execute_n (Suc (length (program (init_vm 4 [112, 0])) - pc (init_vm 4 [112, 0])))
     (init_vm 4 [112, 0]) = Some (execute (init_vm 4 [112, 0])) \<and>
   execute (init_vm 4 [112, 0]) = Inr ((init_vm 4 [112, 0])\<lparr>pc := 2\<rparr>) \<and>
   length (program ((init_vm 4 [112, 0])\<lparr>pc := 2\<rparr>)) \<le> pc ((init_vm 4 [112, 0])\<lparr>pc := 2\<rparr>) \<and>
   pc (init_vm 4 [112, 0]) \<le> pc ((init_vm 4 [112, 0])\<lparr>pc := 2\<rparr>) \<and>
   execute (init_vm 4 [112, 0, 228]) =
     Inl (TruncatedInstruction ''LOAD_CONST'', (init_vm 4 [112, 0, 228])\<lparr>pc := 2\<rparr>) \<and>
   pc (init_vm 4 [112, 0, 228]) \<le> pc ((init_vm 4 [112, 0, 228])\<lparr>pc := 2\<rparr>)"
  using interpreter_terminates [of "init_vm 4 [112, 0]" "(init_vm 4 [112, 0])\<lparr>pc := 2\<rparr>"
      "(init_vm 4 [112, 0])\<lparr>pc := 2\<rparr>" IndexError "init_vm 4 [112, 0]"]
    interpreter_terminates [of "init_vm 4 [112, 0, 228]" "init_vm 4 [112, 0, 228]"
      "init_vm 4 [112, 0, 228]" "TruncatedInstruction ''LOAD_CONST''"
      "(init_vm 4 [112, 0, 228])\<lparr>pc := 2\<rparr>"]
    read_mem_image_step read_mem_image_execute cut_image_execute
  by blast

section \<open>The range of the stored values\<close>

text \<open>
  An iteration keeps the number of registers and of memory cells, and it stores only a
  masked constant, 0 or 1, or a value that a register or a memory cell already holds.
\<close>

lemma list_get_Some:
  "list_get xs i = Some v \<Longrightarrow> v \<in> set xs"
  by (auto simp add: list_get_def py_index_def split: if_splits)

lemma list_set_Some:
  "list_set xs i v = Some ys \<Longrightarrow> length ys = length xs \<and> set ys \<subseteq> insert v (set xs)"
  by (auto simp add: list_set_def py_index_def split: if_splits dest: subsetD [OF set_update_subset_insert])

lemma values_in_range_iff:
  "values_in_range vm = ((\<forall>v\<in>set (registers vm). 0 \<le> v \<and> v \<le> 2 ^ 31 - 1) \<and>
     (\<forall>v\<in>set (memory vm). 0 \<le> v \<and> v \<le> 2 ^ 31 - 1))"
  by (simp add: values_in_range_def list_all_iff)

lemma step_lengths:
  assumes "step vm = Inr vm'"
  shows "length (registers vm') = length (registers vm) \<and> length (memory vm') = length (memory vm)"
  using assms
  unfolding step_def Let_def
  by (auto split: if_splits option.splits prod.splits dest: list_set_Some)

lemma step_values_in_range:
  assumes "values_in_range vm" and "step vm = Inr vm'"
  shows "values_in_range vm'"
proof -
  have and31: "\<And>x::int. 0 \<le> x AND 0x7FFFFFFF \<and> x AND 0x7FFFFFFF \<le> 2 ^ 31 - 1"
    by (simp add: AND_upper2')
  show ?thesis
    using assms and31
    unfolding step_def Let_def values_in_range_iff decode_LOAD_CONST_def
    by (auto split: if_splits option.splits prod.splits
        dest!: list_set_Some list_get_Some)
qed

lemma nonneg_plus_and31:
  "0 \<le> (a::int) \<Longrightarrow> \<not> a + (y AND 0x1F) < 0"
proof -
  assume "0 \<le> a"
  moreover have "0 \<le> y AND 0x1F"
    by simp
  ultimately show ?thesis
    by linarith
qed

lemma step_address_error:
  assumes "values_in_range vm" and "step vm = Inl (MemoryOutOfBounds addr, vm')"
  shows "0 \<le> addr \<and> int (length (memory vm)) \<le> addr"
  using assms
  unfolding step_def Let_def values_in_range_iff decode_BCD_def
  by (auto simp add: nonneg_plus_and31 split: if_splits option.splits prod.splits
      dest!: list_get_Some)

lemma init_vm_invariant:
  "values_in_range (init_vm memory_size binary_data) \<and>
   length (registers (init_vm memory_size binary_data)) = 32 \<and>
   length (memory (init_vm memory_size binary_data)) = memory_size"
  by (simp add: init_vm_def values_in_range_iff)

text \<open>
  C10. In every state that the loop reaches from the fresh machine, for any image and any
  memory size, all registers and all memory cells hold values between 0 and \<open>2 ^ 31 - 1\<close>,
  there are 32 registers and the memory has its initial size. In such a state an address
  that an iteration rejects is never negative: it is rejected because it is not below the
  size of the memory, so the \<^verbatim>\<open>addr < 0\<close> halves of the two address checks never decide.
\<close>

theorem value_range_invariant:
  assumes "reachable memory_size binary_data vm"
  shows "values_in_range vm \<and> length (registers vm) = 32 \<and>
         length (memory vm) = memory_size \<and>
         (step vm = Inl (MemoryOutOfBounds addr, vm') \<longrightarrow>
            0 \<le> addr \<and> int (length (memory vm)) \<le> addr)"
proof -
  from assms
  have inv: "values_in_range vm \<and> length (registers vm) = 32 \<and> length (memory vm) = memory_size"
  proof (induction rule: reachable.induct)
    case reachable_init
    show ?case
      by (rule init_vm_invariant)
  next
    case (reachable_step vm vm1)
    from reachable_step.IH step_values_in_range [OF _ reachable_step.hyps(3)]
      step_lengths [OF reachable_step.hyps(3)]
    show ?case
      by simp
  qed
  with step_address_error [of vm addr vm'] show ?thesis
    by blast
qed

text \<open>
  The image of \<^verbatim>\<open>LOAD_CONST 5 0\<close> and \<^verbatim>\<open>WRITE_MEM 0 0 3\<close> on a machine with four memory
  cells: the state after the first instruction is reached, and there the second instruction
  is rejected with the address 8.
\<close>

lemma two_line_image_step:
  "step (init_vm 4 [228, 0, 0, 0, 40, 0, 244, 0, 24]) =
     Inr \<lparr>registers = (replicate 32 0)[0 := 5], memory = replicate 4 0,
          program = [228, 0, 0, 0, 40, 0, 244, 0, 24], pc = 6\<rparr>"
  by code_simp

lemma two_line_image_error:
  "step \<lparr>registers = (replicate 32 0)[0 := 5], memory = replicate 4 0,
          program = [228, 0, 0, 0, 40, 0, 244, 0, 24], pc = 6\<rparr> =
     Inl (MemoryOutOfBounds 8,
          \<lparr>registers = (replicate 32 0)[0 := 5], memory = replicate 4 0,
           program = [228, 0, 0, 0, 40, 0, 244, 0, 24], pc = 6\<rparr>)"
  by code_simp

theorem value_range_invariant_witness:
  "reachable 4 [228, 0, 0, 0, 40, 0, 244, 0, 24]
     \<lparr>registers = (replicate 32 0)[0 := 5], memory = replicate 4 0,
      program = [228, 0, 0, 0, 40, 0, 244, 0, 24], pc = 6\<rparr> \<and>
   values_in_range
     \<lparr>registers = (replicate 32 0)[0 := 5], memory = replicate 4 0,
      program = [228, 0, 0, 0, 40, 0, 244, 0, 24], pc = 6\<rparr> \<and>
   step \<lparr>registers = (replicate 32 0)[0 := 5], memory = replicate 4 0,
          program = [228, 0, 0, 0, 40, 0, 244, 0, 24], pc = 6\<rparr> =
     Inl (MemoryOutOfBounds 8,
          \<lparr>registers = (replicate 32 0)[0 := 5], memory = replicate 4 0,
           program = [228, 0, 0, 0, 40, 0, 244, 0, 24], pc = 6\<rparr>) \<and>
   (0::int) \<le> 8 \<and>
   int (length (memory
     \<lparr>registers = (replicate 32 0)[0 := 5], memory = replicate 4 0,
      program = [228, 0, 0, 0, 40, 0, 244, 0, 24], pc = 6\<rparr>)) \<le> 8"
proof -
  have p: "pc (init_vm 4 [228, 0, 0, 0, 40, 0, 244, 0, 24])
      < length (program (init_vm 4 [228, 0, 0, 0, 40, 0, 244, 0, 24]))"
    by (simp add: init_vm_def)
  have r: "reachable 4 [228, 0, 0, 0, 40, 0, 244, 0, 24]
     \<lparr>registers = (replicate 32 0)[0 := 5], memory = replicate 4 0,
      program = [228, 0, 0, 0, 40, 0, 244, 0, 24], pc = 6\<rparr>"
    by (rule reachable_step [OF reachable_init p two_line_image_step])
  from value_range_invariant [OF r, of 8
      "\<lparr>registers = (replicate 32 0)[0 := 5], memory = replicate 4 0,
        program = [228, 0, 0, 0, 40, 0, 244, 0, 24], pc = 6\<rparr>"]
    r two_line_image_error
  show ?thesis
    by blast
qed

section \<open>Truncated images\<close>

text \<open>
  C7. Whenever the byte at the pc holds one of the four opcodes and fewer bytes remain from
  the pc to the end of the image than the branch of that opcode asks for, \<^verbatim>\<open>execute\<close> raises
  the ValueError of that branch, and the machine it leaves is the machine it was given:
  registers, memory and pc are unchanged.
\<close>

theorem truncated_instruction:
  assumes "pc vm < length (program vm)"
    and "peek_opcode vm \<in> {57, 28, 61, 19}"
    and "length (program vm) < pc vm + instr_width (peek_opcode vm)"
  shows "execute vm = Inl (TruncatedInstruction (instr_name (peek_opcode vm)), vm)"
  using assms
  apply (subst execute.simps)
  apply (auto simp add: step_def peek_opcode_def instr_width_def instr_name_def Let_def)
  done

text \<open>Four bytes of a LOAD_CONST, which needs six.\<close>

theorem truncated_instruction_witness:
  "pc (init_vm 256 [228, 0, 0, 0]) < length (program (init_vm 256 [228, 0, 0, 0])) \<and>
   peek_opcode (init_vm 256 [228, 0, 0, 0]) \<in> {57, 28, 61, 19} \<and>
   length (program (init_vm 256 [228, 0, 0, 0]))
     < pc (init_vm 256 [228, 0, 0, 0]) + instr_width (peek_opcode (init_vm 256 [228, 0, 0, 0])) \<and>
   execute (init_vm 256 [228, 0, 0, 0])
     = Inl (TruncatedInstruction ''LOAD_CONST'', init_vm 256 [228, 0, 0, 0])"
proof -
  have op: "peek_opcode (init_vm 256 [228, 0, 0, 0]) = 57"
    by (simp add: peek_opcode_def init_vm_def)
  have h1: "pc (init_vm 256 [228, 0, 0, 0]) < length (program (init_vm 256 [228, 0, 0, 0]))"
    by (simp add: init_vm_def)
  have h2: "peek_opcode (init_vm 256 [228, 0, 0, 0]) \<in> {57, 28, 61, 19}"
    by (simp add: op)
  have h3: "length (program (init_vm 256 [228, 0, 0, 0]))
     < pc (init_vm 256 [228, 0, 0, 0]) + instr_width (peek_opcode (init_vm 256 [228, 0, 0, 0]))"
    by (simp add: op instr_width_def) (simp add: init_vm_def)
  from truncated_instruction [OF h1 h2 h3] h1 h2 h3 show ?thesis
    by (simp add: op instr_name_def)
qed

section \<open>The memory range request\<close>

text \<open>
  What the pattern accepts: two non-empty runs of digits with a colon between them, and
  nothing else but for one optional line feed at the end.
\<close>

lemma match_range_shape:
  assumes "match_range s = Some (g1, g2)"
  shows "(s = g1 @ '':'' @ g2 \<or> s = g1 @ '':'' @ g2 @ [CHR 0x0A]) \<and>
         g1 \<noteq> [] \<and> g2 \<noteq> [] \<and> list_all is_digit g1 \<and> list_all is_digit g2"
proof -
  from assms obtain r2 where r1: "dropWhile is_digit s = CHR '':'' # r2"
    and g1: "g1 = takeWhile is_digit s" "g1 \<noteq> []"
    and g2: "g2 = takeWhile is_digit r2" "g2 \<noteq> []"
    and r3: "dropWhile is_digit r2 = [] \<or> dropWhile is_digit r2 = [CHR 0x0A]"
    unfolding match_range_def Let_def
    by (auto split: if_splits list.splits)
  have s: "s = g1 @ CHR '':'' # r2"
    using takeWhile_dropWhile_id [of is_digit s] r1 g1(1) by simp
  have r: "r2 = g2 @ dropWhile is_digit r2"
    using takeWhile_dropWhile_id [of is_digit r2] g2(1) by simp
  have d: "list_all is_digit g1" "list_all is_digit g2"
    unfolding g1(1) g2(1) list_all_iff by (auto dest: set_takeWhileD)
  from r3 show ?thesis
  proof
    assume "dropWhile is_digit r2 = []"
    with r have "r2 = g2" by simp
    with s have "s = g1 @ '':'' @ g2" by simp
    with g1(2) g2(2) d show ?thesis by blast
  next
    assume "dropWhile is_digit r2 = [CHR 0x0A]"
    with r have "r2 = g2 @ [CHR 0x0A]" by simp
    with s have "s = g1 @ '':'' @ g2 @ [CHR 0x0A]" by simp
    with g1(2) g2(2) d show ?thesis by blast
  qed
qed

text \<open>
  A request that \<^verbatim>\<open>parse_memory_range\<close> accepts names a range of the memory, and a request
  that it rejects leaves no result document and the exit status 1, whatever the image.
\<close>

lemma accepted_range_valid:
  assumes "parse_memory_range range_arg memory_size = Inr (start, end')"
  shows "start \<le> end' \<and> end' < memory_size \<and>
         (\<exists>g1 g2. match_range range_arg = Some (g1, g2) \<and>
            py_int g1 = Some start \<and> py_int g2 = Some end')"
  using assms
  unfolding parse_memory_range_def
  by (auto split: option.splits prod.splits if_splits)

lemma execute_memory_length:
  "execute vm = Inr vm' \<Longrightarrow> length (memory vm') = length (memory vm)"
proof (induction vm rule: execute.induct)
  case (1 vm)
  show ?case
  proof (cases "pc vm < length (program vm)")
    case False
    with "1.prems" show ?thesis
      by (subst (asm) execute.simps) auto
  next
    case True
    from "1.prems" True obtain vm1 where s: "step vm = Inr vm1" and e: "execute vm1 = Inr vm'"
      by (subst (asm) execute.simps) (auto split: sum.splits)
    from "1.IH" [OF True s e] step_lengths [OF s] show ?thesis
      by simp
  qed
qed

lemma rejected_range_writes_nothing:
  assumes "parse_memory_range range_arg 256 = Inl e"
  shows "result_file (interpreter_main input_file range_arg) = None \<and>
         interp_exit (interpreter_main input_file range_arg) = 1"
proof (cases input_file)
  case None
  then show ?thesis
    by (simp add: interpreter_main_def)
next
  case (Some binary_data)
  show ?thesis
  proof (cases "execute (init_vm 256 binary_data)")
    case (Inl x)
    with Some show ?thesis
      by (simp add: interpreter_main_def split: prod.splits)
  next
    case (Inr vm')
    from execute_memory_length [OF Inr] have "length (memory vm') = 256"
      by (simp add: init_vm_def)
    with Some Inr assms show ?thesis
      by (simp add: interpreter_main_def)
  qed
qed

text \<open>
  A request that the pattern does not match, or whose numbers are not a range of the 256
  memory cells, is rejected in this way.
\<close>

lemma invalid_range_rejected:
  assumes "match_range range_arg = None \<or>
           (\<exists>g1 g2 a b. match_range range_arg = Some (g1, g2) \<and> py_int g1 = Some a \<and>
              py_int g2 = Some b \<and> \<not> (a \<le> b \<and> b < 256))"
  shows "result_file (interpreter_main input_file range_arg) = None \<and>
         interp_exit (interpreter_main input_file range_arg) = 1"
proof -
  from assms have "\<exists>e. parse_memory_range range_arg 256 = Inl e"
    unfolding parse_memory_range_def by (auto split: option.splits)
  then show ?thesis
    using rejected_range_writes_nothing by blast
qed

text \<open>
  C9. The request \<^verbatim>\<open>5:2\<close> is rejected: nothing is written and the exit status is 1. But the
  request \<^verbatim>\<open>5:7\<close> followed by a line feed, which is not of the form \<^verbatim>\<open>start:end\<close>, is accepted:
  on the empty image the interpreter writes the memory cells 5 to 7 as its result and ends
  with the exit status 0. The pattern ends in \<^verbatim>\<open>$\<close>, which also matches before a final line
  feed.
\<close>

theorem range_with_trailing_newline_accepted:
  "interpreter_main (Some []) (''5:7'' @ [CHR 0x0A]) =
     \<lparr>result_file = Some [0, 0, 0], interp_stderr = None, interp_exit = 0\<rparr> \<and>
   interpreter_main (Some []) ''5:2'' =
     \<lparr>result_file = None, interp_stderr = Some (RangeRejected BadRange), interp_exit = 1\<rparr>"
  by code_simp

end
